theory Spec2Isabelle
  imports Complex_Main "HOL-Library.Sublist" "HOL-Library.Multiset"
begin

section \<open>Floating-point cells\<close>

text \<open>
  The scripts keep their measurements in pandas columns of floats. A float cell is modelled
  as \<open>real option\<close>: \<open>None\<close> is NaN (pandas' null), \<open>Some v\<close> a finite value. Rounding and
  the infinities are not modelled.
\<close>

type_synonym fcell = "real option"


datatype py_error = KeyError | ValueError | IntCastingNaNError | ParallelError

text \<open>\<open>Series.dropna()\<close>: the non-null values, in order.\<close>

definition dropna :: "fcell list \<Rightarrow> real list" where
  "dropna series = [v. Some v \<leftarrow> series]"

text \<open>
  Float division. \<open>0 / 0\<close> is NaN; a non-zero number over zero is an infinity, which
  \<open>fcell\<close> does not hold and which is likewise written \<open>None\<close> here. Lemma
  \<open>safe_norm_zero_den\<close> below shows that \<open>safe_norm\<close>, the only caller with a possibly zero
  denominator, never divides a non-zero number by zero.
\<close>

definition fdiv :: "real \<Rightarrow> real \<Rightarrow> fcell" where
  "fdiv x y = (if y = 0 then None else Some (x / y))"

text \<open>\<open>mean(skipna=True)\<close> of a list of cells: NaN when nothing is left.\<close>

definition mean_skipna :: "fcell list \<Rightarrow> fcell" where
  "mean_skipna xs =
     (let v = dropna xs in if v = [] then None else Some (sum_list v / real (length v)))"

section \<open>\<open>mine_proximity_join_pa8.py\<close>: nearest search in chunks\<close>

text \<open>
  Geometries of a mine layer are Python objects: the layer's geometry column is a list of
  object identities (\<open>id(g)\<close>), and a heap gives the shape behind each identity. A chemistry
  point's geometry is \<open>None\<close>, empty, or a point.
\<close>

type_synonym addr = nat

datatype 'p pgeom = GNone | GEmpty | GPoint 'p

text \<open>
  The spatial index and the geometry algebra are the library's. \<open>STRtree(geoms)\<close> builds a
  tree or raises; the tree's \<open>nearest\<close> query, as this script uses it, returns a geometry
  object or raises; \<open>geom.distance(other)\<close> returns a number or raises. All three are
  parameters of the model.
\<close>

type_synonym 'p strtree = "'p \<Rightarrow> py_error + addr"

text \<open>\<open>{id(g): i for i, g in enumerate(geoms)}\<close>: a later entry overwrites an earlier one.\<close>

definition idx_map :: "addr list \<Rightarrow> (addr \<rightharpoonup> nat)" where
  "idx_map geoms = fold (\<lambda>(i, g) m. m(g \<mapsto> i)) (enumerate 0 geoms) Map.empty"

text \<open>
  One pass of the loop body on the two lists \<open>idxs\<close> and \<open>dists\<close>. A null or empty point
  appends a null to both. A raise is caught by the inner handler, which appends a null to
  both: when the query or the lookup in \<open>idx_map\<close> raises, nothing was appended before; when
  \<open>geom.distance\<close> raises, the index was. (The message written to the QC log is left out.)
\<close>

definition nearest_step ::
  "'p strtree \<Rightarrow> ('p \<Rightarrow> 'g \<Rightarrow> py_error + real) \<Rightarrow> (addr \<Rightarrow> 'g) \<Rightarrow> (addr \<rightharpoonup> nat) \<Rightarrow> 'p pgeom
     \<Rightarrow> nat option list \<times> fcell list \<Rightarrow> nat option list \<times> fcell list" where
  "nearest_step tree distance heap imap geom acc =
     (case acc of (idxs, dists) \<Rightarrow>
        (case geom of
           GNone \<Rightarrow> (idxs @ [None], dists @ [None])
         | GEmpty \<Rightarrow> (idxs @ [None], dists @ [None])
         | GPoint p \<Rightarrow>
             (case tree p of
                Inl e \<Rightarrow> (idxs @ [None], dists @ [None])
              | Inr nearest \<Rightarrow>
                  (case imap nearest of
                     None \<Rightarrow> (idxs @ [None], dists @ [None])
                   | Some i \<Rightarrow>
                       (case distance p (heap nearest) of
                          Inl e \<Rightarrow> (idxs @ [Some i, None], dists @ [None])
                        | Inr d \<Rightarrow> (idxs @ [Some i], dists @ [Some d]))))))"

text \<open>
  \<open>compute_nearest_chunk\<close>: the frame of the two lists, one row \<open>(name_idx, name_dist_m)\<close>
  per point. When the tree cannot be built, or the two lists differ in length so that the
  frame cannot be built, the outer handler returns an all-null frame of the chunk's length.
\<close>

definition compute_nearest_chunk ::
  "(addr list \<Rightarrow> py_error + 'p strtree) \<Rightarrow> ('p \<Rightarrow> 'g \<Rightarrow> py_error + real) \<Rightarrow> (addr \<Rightarrow> 'g)
     \<Rightarrow> 'p pgeom list \<Rightarrow> addr list \<Rightarrow> (nat option \<times> fcell) list" where
  "compute_nearest_chunk STRtree distance heap df_chunk target_gdf =
     (case STRtree target_gdf of
        Inl e \<Rightarrow> replicate (length df_chunk) (None, None)
      | Inr tree \<Rightarrow>
          (case fold (nearest_step tree distance heap (idx_map target_gdf)) df_chunk ([], []) of
             (idxs, dists) \<Rightarrow>
               if length idxs = length dists then zip idxs dists
               else replicate (length df_chunk) (None, None)))"

text \<open>
  The row of a point when \<open>geom.distance\<close> does not raise and returns \<open>dst\<close>.
\<close>

definition nearest_row ::
  "'p strtree \<Rightarrow> ('p \<Rightarrow> 'g \<Rightarrow> real) \<Rightarrow> (addr \<Rightarrow> 'g) \<Rightarrow> (addr \<rightharpoonup> nat) \<Rightarrow> 'p pgeom
     \<Rightarrow> nat option \<times> fcell" where
  "nearest_row tree dst heap imap geom =
     (case geom of
        GNone \<Rightarrow> (None, None)
      | GEmpty \<Rightarrow> (None, None)
      | GPoint p \<Rightarrow>
          (case tree p of
             Inl e \<Rightarrow> (None, None)
           | Inr nearest \<Rightarrow>
               (case imap nearest of
                  None \<Rightarrow> (None, None)
                | Some i \<Rightarrow> (Some i, Some (dst p (heap nearest))))))"

text \<open>
  Two kinds of tree, to run the model on concrete layers. The first is in the manner of
  Shapely 1.x: \<open>nearest\<close> returns the layer's geometry object itself, here the first one at
  the least distance, found by a linear scan.
\<close>

fun scan_nearest :: "(addr \<Rightarrow> real) \<Rightarrow> addr \<Rightarrow> addr list \<Rightarrow> addr" where
  "scan_nearest d best [] = best"
| "scan_nearest d best (a # as) = scan_nearest d (if d a < d best then a else best) as"

definition scan_STRtree ::
  "('p \<Rightarrow> 'g \<Rightarrow> real) \<Rightarrow> (addr \<Rightarrow> 'g) \<Rightarrow> addr list \<Rightarrow> py_error + 'p strtree" where
  "scan_STRtree distance heap geoms =
     Inr (\<lambda>p. case geoms of [] \<Rightarrow> Inl ValueError
               | a # as \<Rightarrow> Inr (scan_nearest (\<lambda>b. distance p (heap b)) a as))"

text \<open>
  The second is in the manner of Shapely 2 and of PyGEOS, the libraries that
  \<open>gpd.sjoin_nearest\<close> in the sibling scripts needs: \<open>nearest\<close> returns the position of the
  nearest geometry as a new integer object (or a rebuilt geometry object), so what it
  returns has the identity of none of the objects in \<open>geoms\<close>.
\<close>

definition fresh_object :: "addr list \<Rightarrow> addr" where
  "fresh_object geoms = Suc (fold max geoms 0)"

definition position_STRtree :: "addr list \<Rightarrow> py_error + 'p strtree" where
  "position_STRtree geoms =
     Inr (\<lambda>p. case geoms of [] \<Rightarrow> Inl ValueError | a # as \<Rightarrow> Inr (fresh_object geoms))"

text \<open>Points and features on a line, for concrete runs.\<close>

definition line_distance :: "real \<Rightarrow> real \<Rightarrow> real" where
  "line_distance p g = \<bar>p - g\<bar>"

definition line_distance_call :: "real \<Rightarrow> real \<Rightarrow> py_error + real" where
  "line_distance_call p g = Inr (line_distance p g)"


definition line_heap :: "addr \<Rightarrow> real" where
  "line_heap a = 100 * real a"

subsection \<open>Splitting a chunk over the workers\<close>

definition N_JOBS :: "int \<Rightarrow> int" where
  "N_JOBS cpu_count = min 8 (cpu_count - 1)"

fun split_sizes :: "'a list \<Rightarrow> nat list \<Rightarrow> 'a list list" where
  "split_sizes xs [] = []"
| "split_sizes xs (n # ns) = take n xs # split_sizes (drop n xs) ns"

text \<open>
  \<open>np.array_split(ary, N)\<close>: \<open>N\<close> consecutive blocks, the first \<open>len mod N\<close> of them one longer
  than the rest; it raises when \<open>N\<close> is not positive.
\<close>

definition array_split :: "'a list \<Rightarrow> int \<Rightarrow> py_error + 'a list list" where
  "array_split ary N =
     (if N \<le> 0 then Inl ValueError
      else let Neach = length ary div nat N; extras = length ary mod nat N
           in Inr (split_sizes ary (replicate extras (Neach + 1) @ replicate (nat N - extras) Neach)))"

text \<open>
  The body of the chunk loop up to \<open>merged\<close>: the blocks are joined by the workers and
  concatenated; when the split or the parallel run raises, the whole chunk is joined
  sequentially. Whether the workers fail is the environment's choice (\<open>par_ok\<close>).
\<close>

definition join_chunk ::
  "bool \<Rightarrow> int \<Rightarrow> (addr list \<Rightarrow> py_error + 'p strtree) \<Rightarrow> ('p \<Rightarrow> 'g \<Rightarrow> py_error + real)
     \<Rightarrow> (addr \<Rightarrow> 'g)
     \<Rightarrow> 'p pgeom list \<Rightarrow> addr list \<Rightarrow> (nat option \<times> fcell) list" where
  "join_chunk par_ok N STRtree distance heap chunk gdf =
     (case array_split chunk N of
        Inl e \<Rightarrow> compute_nearest_chunk STRtree distance heap chunk gdf
      | Inr splits \<Rightarrow>
          if par_ok then concat (map (\<lambda>s. compute_nearest_chunk STRtree distance heap s gdf) splits)
          else compute_nearest_chunk STRtree distance heap chunk gdf)"

subsection \<open>The checkpointed main loop\<close>

definition CHUNK_SIZE :: nat where
  "CHUNK_SIZE = 30000"

text \<open>
  A chemistry record has its columns (\<open>attrs\<close>) and its point geometry. A row of the output
  is a record with the index and distance columns of one layer.
\<close>

record ('a, 'p) chem_rec =
  attrs :: 'a
  geometry :: "'p pgeom"

record ('a, 'p) out_row =
  layer :: string
  rec :: "('a, 'p) chem_rec"
  near_idx :: "nat option"
  near_dist_m :: fcell

text \<open>
  The files the loop reads and writes. A checkpoint file \<open>\<langle>name\<rangle>_chunk_\<langle>k\<rangle>.parquet\<close> is the
  pair \<open>(name, k)\<close>, and the directory lists them oldest first, so the most recently
  modified one is the last. \<open>OUT_PATH\<close> is absent or holds rows.
\<close>

record ('a, 'p) files =
  checkpoints :: "(string \<times> nat) list"
  out_file :: "('a, 'p) out_row list option"

record ('p, 'g) env =
  env_par_ok :: bool
  env_cpu_count :: int
  env_STRtree :: "addr list \<Rightarrow> py_error + 'p strtree"
  env_distance :: "'p \<Rightarrow> 'g \<Rightarrow> py_error + real"
  env_heap :: "addr \<Rightarrow> 'g"

definition append_to_output ::
  "('a, 'p) out_row list \<Rightarrow> ('a, 'p) files \<Rightarrow> ('a, 'p) files" where
  "append_to_output df fs =
     (case out_file fs of
        Some existing \<Rightarrow> fs\<lparr>out_file := Some (existing @ df)\<rparr>
      | None \<Rightarrow> fs\<lparr>out_file := Some df\<rparr>)"

text \<open>The index in the name of the latest checkpoint, or 0 when there is none.\<close>

definition latest_checkpoint :: "('a, 'p) files \<Rightarrow> nat" where
  "latest_checkpoint fs =
     (if checkpoints fs = [] then 0 else snd (last (checkpoints fs)))"

definition reset_checkpoints :: "('a, 'p) files \<Rightarrow> ('a, 'p) files" where
  "reset_checkpoints fs = fs\<lparr>checkpoints := []\<rparr>"

text \<open>\<open>range(start, stop, step)\<close> for a positive step.\<close>

definition py_range :: "nat \<Rightarrow> nat \<Rightarrow> nat \<Rightarrow> nat list" where
  "py_range start stop step =
     (if step = 0 then []
      else map (\<lambda>j. start + j * step) [0..<(stop - start + step - 1) div step])"

definition chunks_from :: "nat \<Rightarrow> nat \<Rightarrow> 'r list \<Rightarrow> 'r list list" where
  "chunks_from cs start_idx chem =
     map (\<lambda>i. take cs (drop i chem)) (py_range start_idx (length chem) cs)"

text \<open>
  The rows written for a chunk: the chunk's records side by side with \<open>merged\<close>.
\<close>

definition out_chunk ::
  "('p, 'g) env \<Rightarrow> string \<Rightarrow> addr list \<Rightarrow> ('a, 'p) chem_rec list \<Rightarrow> ('a, 'p) out_row list" where
  "out_chunk e name gdf chunk =
     (let merged = join_chunk (env_par_ok e) (N_JOBS (env_cpu_count e)) (env_STRtree e) (env_distance e)
                     (env_heap e) (map geometry chunk) gdf
      in map2 (\<lambda>r (ix, d). \<lparr>layer = name, rec = r, near_idx = ix, near_dist_m = d\<rparr>) chunk merged)"

text \<open>
  One pass of the chunk loop. The checkpoint is named after the position \<open>i\<close> of the chunk
  in the list of chunks of this run; it is written before the rows are appended.
\<close>

definition process_chunk ::
  "nat \<Rightarrow> ('p, 'g) env \<Rightarrow> string \<Rightarrow> addr list \<Rightarrow> nat \<times> ('a, 'p) chem_rec list
     \<Rightarrow> ('a, 'p) files \<Rightarrow> ('a, 'p) files" where
  "process_chunk cs e name gdf ic fs =
     (case ic of (i, chunk) \<Rightarrow>
        if (name, i * cs) \<in> set (checkpoints fs) then fs
        else append_to_output (out_chunk e name gdf chunk)
               (fs\<lparr>checkpoints := checkpoints fs @ [(name, i * cs)]\<rparr>))"

definition process_layer ::
  "nat \<Rightarrow> ('p, 'g) env \<Rightarrow> nat \<Rightarrow> ('a, 'p) chem_rec list \<Rightarrow> string \<times> addr list
     \<Rightarrow> ('a, 'p) files \<Rightarrow> ('a, 'p) files" where
  "process_layer cs e start_idx chem l fs =
     (case l of (name, gdf) \<Rightarrow>
        if gdf = [] then fs
        else fold (process_chunk cs e name gdf) (enumerate 0 (chunks_from cs start_idx chem)) fs)"

text \<open>The script from \<open>start_idx = latest_checkpoint()\<close> to the final clean-up.\<close>

definition main_loop ::
  "nat \<Rightarrow> ('p, 'g) env \<Rightarrow> ('a, 'p) chem_rec list \<Rightarrow> (string \<times> addr list) list
     \<Rightarrow> ('a, 'p) files \<Rightarrow> ('a, 'p) files" where
  "main_loop cs e chem layers fs =
     (let start_idx = latest_checkpoint fs;
          fs1 = (if start_idx > 0 then fs else reset_checkpoints fs);
          fs2 = fold (process_layer cs e start_idx chem) layers fs1
      in reset_checkpoints fs2)"

definition main ::
  "('p, 'g) env \<Rightarrow> ('a, 'p) chem_rec list \<Rightarrow> (string \<times> addr list) list
     \<Rightarrow> ('a, 'p) files \<Rightarrow> ('a, 'p) files" where
  "main = main_loop CHUNK_SIZE"

text \<open>
  A run that is interrupted in its first layer after \<open>n\<close> chunks: what it leaves behind.
\<close>

definition interrupted ::
  "nat \<Rightarrow> ('p, 'g) env \<Rightarrow> ('a, 'p) chem_rec list \<Rightarrow> string \<times> addr list \<Rightarrow> nat
     \<Rightarrow> ('a, 'p) files" where
  "interrupted cs e chem l n =
     (case l of (name, gdf) \<Rightarrow>
        fold (process_chunk cs e name gdf) (take n (enumerate 0 (chunks_from cs 0 chem)))
          \<lparr>checkpoints = [], out_file = None\<rparr>)"

text \<open>A small environment and dataset on a line, for concrete runs.\<close>

definition line_env :: "(real, real) env" where
  "line_env = \<lparr>env_par_ok = True, env_cpu_count = 4,
               env_STRtree = scan_STRtree line_distance line_heap,
               env_distance = line_distance_call, env_heap = line_heap\<rparr>"

definition line_chem :: "nat \<Rightarrow> (nat, real) chem_rec list" where
  "line_chem n = map (\<lambda>k. \<lparr>attrs = k, geometry = GPoint (10 * real k)\<rparr>) [0..<n]"

definition sites_of :: "string \<Rightarrow> ('a, 'p) files \<Rightarrow> 'a list" where
  "sites_of name fs =
     (case out_file fs of
        None \<Rightarrow> []
      | Some out \<Rightarrow> map (\<lambda>r. attrs (rec r)) (filter (\<lambda>r. layer r = name) out))"

section \<open>\<open>mine_proximity_join_pa.py\<close>: the join within a search radius\<close>



text \<open>
  \<open>gpd.sjoin_nearest(sites, mines, how="left", max_distance=..., distance_col=...)\<close> is the
  library's; this is its documented result, reduced to the site's position and the distance
  column: one row per nearest feature within \<open>max_distance\<close> (several rows when features
  are equidistant), and one row with a null distance for a site with no feature in range.
\<close>

definition joined_rows :: "('p \<Rightarrow> 'g \<Rightarrow> real) \<Rightarrow> 'g list \<Rightarrow> real \<Rightarrow> 'p \<Rightarrow> fcell list" where
  "joined_rows distance mines max_distance p =
     (let near = filter (\<lambda>d. d \<le> max_distance) (map (distance p) mines) in
      if near = [] then [None]
      else map Some (filter (\<lambda>d. d = Min (set near)) near))"



subsection \<open>\<open>mine_proximity_join_pa2.py\<close>: the join without a radius\<close>



subsection \<open>The nearest mine over all layers\<close>







section \<open>\<open>watershed_health_huc12.py\<close>: the watershed health index\<close>

text \<open>
  A record of the joined dataset: its HUC12 identifier (possibly null), the distance to the
  nearest bituminous mine, and the chemistry values by column name. The frame also knows
  which columns it has.
\<close>

record 'k hrow =
  huc :: "'k option"
  dist :: fcell
  chem :: "string \<Rightarrow> fcell"

record 'k hframe =
  columns :: "string list"
  rows :: "'k hrow list"

definition dist_col :: string where
  "dist_col = ''Bituminous_dist_m''"

definition chem_cols :: "'k hframe \<Rightarrow> string list" where
  "chem_cols df = filter (\<lambda>c. c \<in> set (columns df)) [''Fe'', ''ResultMeasureValue'', ''Temperatur'']"

definition huc_col :: "'k hframe \<Rightarrow> string" where
  "huc_col df = (if ''HUC12_ID'' \<in> set (columns df) then ''HUC12_ID'' else ''HUC12'')"

text \<open>
  Step 3: the required columns are checked, rows without a HUC12 are dropped, then rows
  whose distance and chemistry values are all null.
\<close>

definition prepare :: "'k hframe \<Rightarrow> py_error + 'k hrow list" where
  "prepare df =
     (if filter (\<lambda>c. c \<notin> set (columns df)) (chem_cols df @ [dist_col, huc_col df]) \<noteq> []
      then Inl KeyError
      else Inr (filter (\<lambda>r. \<not> (dist r = None \<and> list_all (\<lambda>c. chem r c = None) (chem_cols df)))
                  (filter (\<lambda>r. huc r \<noteq> None) (rows df))))"

text \<open>Step 4: min-max normalisation of a column, nulls left out of the minimum and maximum.\<close>

definition safe_norm :: "fcell list \<Rightarrow> fcell list" where
  "safe_norm series =
     (let valid = dropna series in
      if valid = [] then replicate (length series) None
      else map (\<lambda>x. case x of None \<Rightarrow> None
                      | Some v \<Rightarrow> fdiv (v - Min (set valid)) (Max (set valid) - Min (set valid)))
             series)"

definition chem_norm :: "'k hrow list \<Rightarrow> string \<Rightarrow> fcell list" where
  "chem_norm data c = safe_norm (map (\<lambda>r. chem r c) data)"

definition dist_inv :: "'k hrow list \<Rightarrow> fcell list" where
  "dist_inv data =
     (if list_ex (\<lambda>r. dist r \<noteq> None) data
      then map (map_option (\<lambda>v. 1 - v)) (safe_norm (map dist data))
      else replicate (length data) None)"

text \<open>Step 5: the row-wise mean of the normalised chemistry columns, and the weighted index.\<close>

definition chem_score :: "string list \<Rightarrow> 'k hrow list \<Rightarrow> fcell list" where
  "chem_score cs data =
     map (\<lambda>i. mean_skipna (map (\<lambda>c. chem_norm data c ! i) cs)) [0..<length data]"

definition weighted :: "fcell \<Rightarrow> fcell \<Rightarrow> fcell" where
  "weighted c d = (case (c, d) of (Some a, Some b) \<Rightarrow> Some (0.6 * a + 0.4 * b) | _ \<Rightarrow> None)"

definition Sickness_Index :: "string list \<Rightarrow> 'k hrow list \<Rightarrow> fcell list" where
  "Sickness_Index cs data = map2 weighted (chem_score cs data) (dist_inv data)"

text \<open>
  Step 6: one summary row per HUC12, in key order, each with the group means. The
  aggregation names all three chemistry columns, so it raises when one is absent.
\<close>

record 'k srow =
  s_huc :: 'k
  Mean_Fe :: fcell
  Mean_Analyte :: fcell
  Mean_Temp :: fcell
  Mean_Dist_M :: fcell
  s_index :: fcell

definition group_rows :: "('k::linorder) hrow list \<Rightarrow> fcell list \<Rightarrow> 'k \<Rightarrow> ('k hrow \<times> fcell) list" where
  "group_rows data si k = filter (\<lambda>(r, s). huc r = Some k) (zip data si)"

definition aggregate :: "string list \<Rightarrow> ('k::linorder) hrow list \<Rightarrow> py_error + 'k srow list" where
  "aggregate cs data =
     (if \<not> set [''Fe'', ''ResultMeasureValue'', ''Temperatur''] \<subseteq> set cs then Inl KeyError
      else Inr (map (\<lambda>k. let g = group_rows data (Sickness_Index cs data) k in
                      \<lparr> s_huc = k,
                        Mean_Fe = mean_skipna (map (\<lambda>(r, s). chem r ''Fe'') g),
                        Mean_Analyte = mean_skipna (map (\<lambda>(r, s). chem r ''ResultMeasureValue'') g),
                        Mean_Temp = mean_skipna (map (\<lambda>(r, s). chem r ''Temperatur'') g),
                        Mean_Dist_M = mean_skipna (map (\<lambda>(r, s). dist r) g),
                        s_index = mean_skipna (map snd g) \<rparr>)
                  (sort (remdups [k. Some k \<leftarrow> map huc data]))))"

text \<open>
  \<open>rank(ascending=False, method="dense")\<close>: a value's rank is the number of distinct values
  of the column that are at least as large; a null keeps a null rank.
\<close>

definition rank_dense_desc :: "fcell list \<Rightarrow> nat option list" where
  "rank_dense_desc xs =
     map (map_option (\<lambda>v. length (remdups (filter (\<lambda>w. v \<le> w) (dropna xs))))) xs"

text \<open>\<open>astype(int)\<close> raises on a null.\<close>

definition astype_int :: "nat option list \<Rightarrow> py_error + nat list" where
  "astype_int xs = (if None \<in> set xs then Inl IntCastingNaNError else Inr (map the xs))"

text \<open>
  The ranked summary: each row with its \<open>Rank\<close>, sorted by \<open>Rank\<close>. pandas does not promise
  the order among equal ranks; the model keeps the order of the rows.
\<close>

definition ranked :: "'k srow list \<Rightarrow> py_error + ('k srow \<times> nat) list" where
  "ranked summary =
     (case astype_int (rank_dense_desc (map s_index summary)) of
        Inl e \<Rightarrow> Inl e
      | Inr ranks \<Rightarrow> Inr (sort_key snd (zip summary ranks)))"

definition health_summary :: "('k::linorder) hframe \<Rightarrow> py_error + ('k srow \<times> nat) list" where
  "health_summary df =
     (case prepare df of
        Inl e \<Rightarrow> Inl e
      | Inr data \<Rightarrow>
          (case aggregate (chem_cols df) data of
             Inl e \<Rightarrow> Inl e
           | Inr summary \<Rightarrow> ranked summary))"

text \<open>
  The formula as the methodology text documents it:
  \<open>S = 0.6 \<times> Chemistry + 0.4 \<times> (1 - Normalized Distance)\<close>.
\<close>

definition documented_S :: "real \<Rightarrow> real \<Rightarrow> real" where
  "documented_S chemistry normalized_distance = 0.6 * chemistry + 0.4 * (1 - normalized_distance)"
section \<open>\<open>amd_feature_engineer.py\<close>: the AMD impact label\<close>

text \<open>
  \<open>build_features\<close> collects one dict per site (\<open>site_feats\<close>) and turns the list of dicts
  into a frame: a key that some site lacks is NaN in that site's row, and a column exists
  when at least one site has the key.
\<close>

type_synonym site_feats = "string \<rightharpoonup> real"
type_synonym feat_df = "site_feats list"

datatype 'a col_or_scalar = Column "'a list" | Scalar 'a

text \<open>\<open>feat_df.get(name, np.nan)\<close>: the column when it exists, the default otherwise.\<close>

definition df_get :: "feat_df \<Rightarrow> string \<Rightarrow> fcell col_or_scalar" where
  "df_get df name =
     (if list_ex (\<lambda>r. r name \<noteq> None) df then Column (map (\<lambda>r. r name) df)
      else Scalar None)"

text \<open>Elementwise comparisons with a number; a comparison with NaN is False.\<close>

definition lt_num :: "fcell \<Rightarrow> real \<Rightarrow> bool" where
  "lt_num x c = (case x of None \<Rightarrow> False | Some v \<Rightarrow> v < c)"

definition gt_num :: "fcell \<Rightarrow> real \<Rightarrow> bool" where
  "gt_num x c = (case x of None \<Rightarrow> False | Some v \<Rightarrow> v > c)"

fun cmp_bcast :: "(fcell \<Rightarrow> bool) \<Rightarrow> fcell col_or_scalar \<Rightarrow> bool col_or_scalar" where
  "cmp_bcast f (Column xs) = Column (map f xs)"
| "cmp_bcast f (Scalar x) = Scalar (f x)"

text \<open>The operator \<open>|\<close> with a scalar broadcast over a column.\<close>

fun or_bcast :: "bool col_or_scalar \<Rightarrow> bool col_or_scalar \<Rightarrow> bool col_or_scalar" where
  "or_bcast (Column xs) (Column ys) = Column (map2 (\<or>) xs ys)"
| "or_bcast (Column xs) (Scalar y) = Column (map (\<lambda>x. x \<or> y) xs)"
| "or_bcast (Scalar x) (Column ys) = Column (map (\<lambda>y. x \<or> y) ys)"
| "or_bcast (Scalar x) (Scalar y) = Scalar (x \<or> y)"

text \<open>\<open>np.where(cond, 1, 0)\<close>, assigned to a column of a frame with \<open>n\<close> rows.\<close>

fun where_1_0 :: "nat \<Rightarrow> bool col_or_scalar \<Rightarrow> nat list" where
  "where_1_0 n (Column bs) = map (\<lambda>b. if b then 1 else 0) bs"
| "where_1_0 n (Scalar b) = replicate n (if b then 1 else 0)"

definition AMD_impacted :: "feat_df \<Rightarrow> nat list" where
  "AMD_impacted df =
     where_1_0 (length df)
       (or_bcast (cmp_bcast (\<lambda>x. lt_num x 5) (df_get df ''pH_mean''))
                 (cmp_bcast (\<lambda>x. gt_num x 10) (df_get df ''Iron_mean'')))"


section \<open>\<open>amd_cleaner.py\<close>: cleaning and the AMD subset\<close>

text \<open>
  A cell of a CSV chunk is null, a number or text. A chunk has its column labels and its
  rows, each row with one cell per label. A character of a text is a code point below 256.
\<close>

datatype cell = Null | Num real | Str string

record frame =
  labels :: "string list"
  records :: "cell list list"

definition amd_params :: "string list" where
  "amd_params = [''pH'', ''Iron'', ''Manganese'', ''Aluminum'',
                 ''Sulfate'', ''Alkalinity'', ''Specific conductance'']"

text \<open>Keeping the columns at the positions \<open>js\<close>.\<close>

definition take_columns :: "nat list \<Rightarrow> frame \<Rightarrow> frame" where
  "take_columns js fr =
     \<lparr>labels = map (\<lambda>j. labels fr ! j) js, records = map (\<lambda>r. map (\<lambda>j. r ! j) js) (records fr)\<rparr>"

text \<open>\<open>chunk.loc[:, chunk.notna().any()]\<close>: the columns with a non-null cell.\<close>

definition drop_empty_columns :: "frame \<Rightarrow> frame" where
  "drop_empty_columns fr =
     take_columns (filter (\<lambda>j. list_ex (\<lambda>r. r ! j \<noteq> Null) (records fr)) [0..<length (labels fr)]) fr"

text \<open>\<open>chunk.loc[:, ~chunk.columns.duplicated()]\<close>: the first column of each label.\<close>

definition drop_duplicate_columns :: "frame \<Rightarrow> frame" where
  "drop_duplicate_columns fr =
     take_columns (filter (\<lambda>j. labels fr ! j \<notin> set (take j (labels fr))) [0..<length (labels fr)]) fr"

text \<open>
  \<open>str.strip()\<close> and the replacement of one character. The characters that \<open>strip\<close> removes
  are Python's whitespace: below 256 these are the code points 9 to 13, 28 to 32, 133 and 160.
\<close>

definition is_space :: "char \<Rightarrow> bool" where
  "is_space c =
     (c \<in> set [CHR 0x09, CHR 0x0A, CHR 0x0B, CHR 0x0C, CHR 0x0D,
                CHR 0x1C, CHR 0x1D, CHR 0x1E, CHR 0x1F, CHR 0x20, CHR 0x85, CHR 0xA0])"

definition strip :: "string \<Rightarrow> string" where
  "strip s = rev (dropWhile is_space (rev (dropWhile is_space s)))"

definition replace_char :: "char \<Rightarrow> char \<Rightarrow> string \<Rightarrow> string" where
  "replace_char old new s = map (\<lambda>c. if c = old then new else c) s"

definition clean_header :: "string \<Rightarrow> string" where
  "clean_header h =
     replace_char CHR ''-'' CHR ''_'' (replace_char CHR ''/'' CHR ''_''
       (replace_char CHR '' '' CHR ''_'' (strip h)))"

definition clean_headers :: "frame \<Rightarrow> frame" where
  "clean_headers fr = fr\<lparr>labels := map clean_header (labels fr)\<rparr>"

text \<open>Applying a function to the cells of the columns chosen by position.\<close>

definition map_columns :: "(nat \<Rightarrow> bool) \<Rightarrow> (cell \<Rightarrow> cell) \<Rightarrow> frame \<Rightarrow> frame" where
  "map_columns sel f fr =
     fr\<lparr>records := map (\<lambda>r. map (\<lambda>(j, c). if sel j then f c else c) (enumerate 0 r)) (records fr)\<rparr>"

text \<open>
  The text columns (dtype \<open>object\<close>) are those with a text cell; \<open>.str.strip()\<close> strips a
  text cell and gives a null for anything else.
\<close>

definition is_text_column :: "frame \<Rightarrow> nat \<Rightarrow> bool" where
  "is_text_column fr j = list_ex (\<lambda>r. case r ! j of Str s \<Rightarrow> True | _ \<Rightarrow> False) (records fr)"

definition str_strip :: "cell \<Rightarrow> cell" where
  "str_strip c = (case c of Str s \<Rightarrow> Str (strip s) | _ \<Rightarrow> Null)"

definition strip_text :: "frame \<Rightarrow> frame" where
  "strip_text fr = map_columns (is_text_column fr) str_strip fr"

text \<open>
  The numeric fields are the columns whose label contains \<open>MeasureValue\<close>, \<open>Result\<close> or
  \<open>Detection\<close>. \<open>pd.to_numeric(errors="coerce")\<close> keeps a number, parses a text (the
  parser is a parameter) and gives a null when the text is no number.
\<close>

definition contains :: "string \<Rightarrow> string \<Rightarrow> bool" where
  "contains sub s = list_ex (\<lambda>t. prefix sub t) (suffixes s)"

definition is_num_field :: "string \<Rightarrow> bool" where
  "is_num_field c = (contains ''MeasureValue'' c \<or> contains ''Result'' c \<or> contains ''Detection'' c)"

definition to_numeric :: "(string \<Rightarrow> real option) \<Rightarrow> cell \<Rightarrow> cell" where
  "to_numeric parse c =
     (case c of
        Str s \<Rightarrow> (case parse s of Some v \<Rightarrow> Num v | None \<Rightarrow> Null)
      | _ \<Rightarrow> c)"

definition coerce_numeric :: "(string \<Rightarrow> real option) \<Rightarrow> frame \<Rightarrow> frame" where
  "coerce_numeric parse fr =
     map_columns (\<lambda>j. j < length (labels fr) \<and> is_num_field (labels fr ! j)) (to_numeric parse) fr"

text \<open>\<open>drop_duplicates()\<close> keeps the first of equal rows.\<close>

fun keep_first :: "'a list \<Rightarrow> 'a list \<Rightarrow> 'a list" where
  "keep_first seen [] = []"
| "keep_first seen (x # xs) = (if x \<in> set seen then keep_first seen xs else x # keep_first (x # seen) xs)"

definition drop_duplicates :: "frame \<Rightarrow> frame" where
  "drop_duplicates fr = fr\<lparr>records := keep_first [] (records fr)\<rparr>"

text \<open>The cleaned chunk, as written to the cleaned file.\<close>

definition clean_chunk :: "(string \<Rightarrow> real option) \<Rightarrow> frame \<Rightarrow> frame" where
  "clean_chunk parse chunk =
     drop_duplicates (coerce_numeric parse (strip_text (clean_headers
       (drop_duplicate_columns (drop_empty_columns chunk)))))"

text \<open>
  \<open>chunk["CharacteristicName"].isin(amd_params)\<close>, row by row: the cell under the label is
  a text of the list.
\<close>

definition cell_at :: "frame \<Rightarrow> cell list \<Rightarrow> string \<Rightarrow> cell option" where
  "cell_at fr r name = map_of (zip (labels fr) r) name"

definition is_amd_row :: "frame \<Rightarrow> cell list \<Rightarrow> bool" where
  "is_amd_row fr r =
     (case cell_at fr r ''CharacteristicName'' of
        Some (Str s) \<Rightarrow> s \<in> set amd_params
      | _ \<Rightarrow> False)"

definition amd_subset :: "frame \<Rightarrow> frame" where
  "amd_subset fr = fr\<lparr>records := filter (is_amd_row fr) (records fr)\<rparr>"

text \<open>
  A call of \<open>to_csv\<close>: the mode, whether the header line is written, and the frame. The
  state of the loop is the two flags and the calls made on each output file so far.
\<close>

datatype mode = W | A

record csv_write =
  w_mode :: mode
  w_header :: bool
  w_frame :: frame

record cleaner_state =
  first_clean :: bool
  first_subset :: bool
  out_clean :: "csv_write list"
  out_subset :: "csv_write list"

definition to_csv :: "bool \<Rightarrow> frame \<Rightarrow> csv_write" where
  "to_csv first fr = \<lparr>w_mode = (if first then W else A), w_header = first, w_frame = fr\<rparr>"

definition clean_step :: "(string \<Rightarrow> real option) \<Rightarrow> frame \<Rightarrow> cleaner_state \<Rightarrow> cleaner_state" where
  "clean_step parse raw st =
     (let chunk = clean_chunk parse raw;
          st1 = st\<lparr>out_clean := out_clean st @ [to_csv (first_clean st) chunk], first_clean := False\<rparr>
      in if ''CharacteristicName'' \<in> set (labels chunk)
         then let subset = amd_subset chunk
              in if records subset \<noteq> []
                 then st1\<lparr>out_subset := out_subset st1 @ [to_csv (first_subset st1) subset],
                         first_subset := False\<rparr>
                 else st1
         else st1)"

definition clean_wqx_file :: "(string \<Rightarrow> real option) \<Rightarrow> frame list \<Rightarrow> cleaner_state" where
  "clean_wqx_file parse chunks =
     fold (clean_step parse) chunks
       \<lparr>first_clean = True, first_subset = True, out_clean = [], out_subset = []\<rparr>"

text \<open>The frames the subset file receives from a list of raw chunks.\<close>

definition subset_frames :: "(string \<Rightarrow> real option) \<Rightarrow> frame list \<Rightarrow> frame list" where
  "subset_frames parse chunks =
     map amd_subset
       (filter (\<lambda>c. ''CharacteristicName'' \<in> set (labels c) \<and> records (amd_subset c) \<noteq> [])
          (map (clean_chunk parse) chunks))"

text \<open>
  The file that a sequence of \<open>to_csv\<close> calls leaves, as its lines: mode \<open>w\<close> starts the file
  anew and mode \<open>a\<close> appends; a call with \<open>header\<close> writes the labels as a line before the
  rows.
\<close>

definition csv_lines :: "csv_write \<Rightarrow> cell list list" where
  "csv_lines w =
     (if w_header w then [map Str (labels (w_frame w))] else []) @ records (w_frame w)"

definition write_file :: "csv_write \<Rightarrow> cell list list \<Rightarrow> cell list list" where
  "write_file w file = (case w_mode w of W \<Rightarrow> csv_lines w | A \<Rightarrow> file @ csv_lines w)"

definition file_after :: "csv_write list \<Rightarrow> cell list list" where
  "file_after writes = fold write_file writes []"

text \<open>
  Reading the file back, as \<open>amd_feature_engineer.py\<close> does with \<open>pd.read_csv\<close>: the first
  line gives the labels of every row of the file.
\<close>

definition cell_text :: "cell \<Rightarrow> string" where
  "cell_text c = (case c of Str s \<Rightarrow> s | _ \<Rightarrow> [])"

definition read_csv :: "cell list list \<Rightarrow> frame" where
  "read_csv file =
     (case file of
        [] \<Rightarrow> \<lparr>labels = [], records = []\<rparr>
      | h # rest \<Rightarrow> \<lparr>labels = map cell_text h, records = rest\<rparr>)"

text \<open>A parser of numeric fields for concrete runs.\<close>

definition sample_parse :: "string \<Rightarrow> real option" where
  "sample_parse s = (if s = ''7'' then Some 7 else if s = ''12'' then Some 12 else None)"

text \<open>
  Two chunks of one input file with the columns \<open>Org\<close>, \<open>CharacteristicName\<close>, \<open>Unit\<close>; the
  second chunk has no value in \<open>Org\<close>.
\<close>

definition org_chunk :: frame where
  "org_chunk =
     \<lparr>labels = [''Org'', ''CharacteristicName'', ''Unit''],
      records = [[Str ''A'', Str ''pH'', Str ''mg'']]\<rparr>"

definition no_org_chunk :: frame where
  "no_org_chunk =
     \<lparr>labels = [''Org'', ''CharacteristicName'', ''Unit''],
      records = [[Null, Str ''Iron'', Str ''ug'']]\<rparr>"

section \<open>Non-null values of a column\<close>

lemma set_dropna: "set (dropna s) = {v. Some v \<in> set s}"
  by (auto simp: dropna_def split: option.splits)

lemma dropna_Nil_iff: "dropna s = [] \<longleftrightarrow> (\<forall>x \<in> set s. x = None)"
proof -
  have "dropna s = [] \<longleftrightarrow> set (dropna s) = {}" by simp
  also have "\<dots> \<longleftrightarrow> (\<forall>x \<in> set s. x = None)"
    unfolding set_dropna by (metis (mono_tags, lifting) Collect_empty_eq not_Some_eq)
  finally show ?thesis .
qed

lemma nth_in_dropna: "i < length s \<Longrightarrow> s ! i = Some v \<Longrightarrow> v \<in> set (dropna s)"
  unfolding set_dropna by (metis mem_Collect_eq nth_mem)

section \<open>Properties of the nearest search\<close>

lemma idx_map_snoc: "idx_map (xs @ [x]) = (idx_map xs)(x \<mapsto> length xs)"
  by (simp add: idx_map_def enumerate_append_eq)

lemma idx_map_Some:
  "a \<in> set xs \<Longrightarrow> \<exists>j < length xs. idx_map xs a = Some j \<and> xs ! j = a"
proof (induction xs rule: rev_induct)
  case Nil
  then show ?case by simp
next
  case (snoc x xs)
  show ?case
  proof (cases "a = x")
    case True
    then show ?thesis by (auto simp: idx_map_snoc)
  next
    case False
    with snoc obtain j where "j < length xs" "idx_map xs a = Some j" "xs ! j = a" by auto
    with False show ?thesis
      by (auto simp: idx_map_snoc nth_append intro!: exI [of _ j])
  qed
qed

lemma idx_map_None: "a \<notin> set xs \<Longrightarrow> idx_map xs a = None"
proof (induction xs rule: rev_induct)
  case Nil
  then show ?case by (simp add: idx_map_def)
next
  case (snoc x xs)
  then show ?case by (simp add: idx_map_snoc)
qed

lemma fold_nearest_step_dists:
  "length (snd (fold (nearest_step tree distance heap imap) chunk acc))
     = length (snd acc) + length chunk"
proof (induction chunk arbitrary: acc)
  case Nil
  then show ?case by simp
next
  case (Cons geom chunk)
  have "length (snd (nearest_step tree distance heap imap geom acc)) = Suc (length (snd acc))"
    by (cases acc) (simp add: nearest_step_def split: pgeom.splits sum.splits option.splits)
  then show ?case using Cons [of "nearest_step tree distance heap imap geom acc"] by simp
qed

lemma length_compute_nearest_chunk:
  "length (compute_nearest_chunk STRtree distance heap df_chunk target) = length df_chunk"
proof (cases "STRtree target")
  case (Inl e)
  then show ?thesis by (simp add: compute_nearest_chunk_def)
next
  case (Inr tree)
  obtain idxs dists
    where f: "fold (nearest_step tree distance heap (idx_map target)) df_chunk ([], []) = (idxs, dists)"
    by (cases "fold (nearest_step tree distance heap (idx_map target)) df_chunk ([], [])")
  have "length dists = length df_chunk"
    using fold_nearest_step_dists [of tree distance heap "idx_map target" df_chunk "([], [])"]
    by (simp add: f)
  then show ?thesis using Inr f by (simp add: compute_nearest_chunk_def)
qed

text \<open>When \<open>geom.distance\<close> never raises, each pass appends one row.\<close>

lemma fold_nearest_step_rows:
  assumes "\<forall>q g. distance q g = Inr (dst q g)"
  shows "fold (nearest_step tree distance heap imap) chunk (idxs, dists)
           = (idxs @ map (\<lambda>g. fst (nearest_row tree dst heap imap g)) chunk,
              dists @ map (\<lambda>g. snd (nearest_row tree dst heap imap g)) chunk)"
proof (induction chunk arbitrary: idxs dists)
  case Nil
  then show ?case by simp
next
  case (Cons geom chunk)
  have "nearest_step tree distance heap imap geom (idxs, dists)
          = (idxs @ [fst (nearest_row tree dst heap imap geom)],
             dists @ [snd (nearest_row tree dst heap imap geom)])"
    using assms
    by (simp add: nearest_step_def nearest_row_def split: pgeom.splits sum.splits option.splits)
  then show ?case using Cons by simp
qed

lemma compute_nearest_chunk_rows:
  assumes "\<forall>q g. distance q g = Inr (dst q g)"
    and "STRtree target = Inr tree"
  shows "compute_nearest_chunk STRtree distance heap df_chunk target
           = map (nearest_row tree dst heap (idx_map target)) df_chunk"
proof -
  let ?row = "nearest_row tree dst heap (idx_map target)"
  have "zip (map (\<lambda>g. fst (?row g)) df_chunk) (map (\<lambda>g. snd (?row g)) df_chunk) = map ?row df_chunk"
    by (induction df_chunk) auto
  then show ?thesis
    using assms(2)
      fold_nearest_step_rows [OF assms(1), where tree = tree and heap = heap
        and imap = "idx_map target" and chunk = df_chunk and idxs = "[]" and dists = "[]"]
    by (simp add: compute_nearest_chunk_def)
qed

text \<open>A distance call that never raises returns some distance function.\<close>

lemma distance_total:
  assumes "\<forall>q g. \<exists>d. distance q g = Inr d"
  shows "\<forall>q g. distance q g = Inr (projr (distance q g))"
proof (intro allI)
  fix q g
  from assms obtain d where "distance q g = Inr d" by blast
  then show "distance q g = Inr (projr (distance q g))" by simp
qed

lemma scan_nearest_mem: "scan_nearest d best as \<in> insert best (set as)"
  by (induction as arbitrary: best) (auto split: if_splits)

lemma scan_nearest_least:
  "d (scan_nearest d best as) \<le> d best \<and> (\<forall>a \<in> set as. d (scan_nearest d best as) \<le> d a)"
proof (induction as arbitrary: best)
  case Nil
  then show ?case by simp
next
  case (Cons a as)
  let ?b = "if d a < d best then a else best"
  from Cons [of ?b] have "d (scan_nearest d ?b as) \<le> d ?b"
    and "\<forall>c \<in> set as. d (scan_nearest d ?b as) \<le> d c" by simp_all
  moreover have "d ?b \<le> d best" "d ?b \<le> d a" by simp_all
  ultimately show ?case by force
qed

text \<open>The library contract the script relies on, and the reference scan meeting it.\<close>

lemma scan_STRtree_contract:
  assumes "geoms \<noteq> []"
  shows "\<exists>tree. scan_STRtree distance heap geoms = Inr tree \<and>
           (\<forall>p. \<exists>g \<in> set geoms. tree p = Inr g \<and>
                  (\<forall>h \<in> set geoms. distance p (heap g) \<le> distance p (heap h)))"
proof -
  from assms obtain a as where geoms: "geoms = a # as" by (cases geoms) auto
  let ?tree = "\<lambda>p. Inr (scan_nearest (\<lambda>b. distance p (heap b)) a as) :: py_error + addr"
  have "scan_STRtree distance heap geoms = Inr ?tree"
    by (simp add: scan_STRtree_def geoms)
  moreover have "\<forall>p. \<exists>g \<in> set geoms. ?tree p = Inr g \<and>
                  (\<forall>h \<in> set geoms. distance p (heap g) \<le> distance p (heap h))"
  proof
    fix p
    let ?g = "scan_nearest (\<lambda>b. distance p (heap b)) a as"
    have "?g \<in> set geoms" using scan_nearest_mem [of _ a as] by (simp add: geoms)
    moreover have "\<forall>h \<in> set geoms. distance p (heap ?g) \<le> distance p (heap h)"
      using scan_nearest_least [of "\<lambda>b. distance p (heap b)" a as] by (simp add: geoms)
    ultimately show "\<exists>g \<in> set geoms. ?tree p = Inr g \<and>
                  (\<forall>h \<in> set geoms. distance p (heap g) \<le> distance p (heap h))" by blast
  qed
  ultimately show ?thesis by blast
qed

text \<open>
  With a library whose query returns the layer's geometry object at the least distance, and
  a \<open>geom.distance\<close> that returns \<open>dst\<close> without raising, the function reports for every
  point an index of a nearest geometry and its distance.
\<close>

lemma compute_nearest_chunk_point:
  assumes "target \<noteq> []"
    and "STRtree target = Inr tree"
    and "\<forall>q g. distance q g = Inr (dst q g)"
    and "\<forall>q. \<exists>g \<in> set target. tree q = Inr g \<and>
               (\<forall>h \<in> set target. dst q (heap g) \<le> dst q (heap h))"
    and "i < length df_chunk"
    and "df_chunk ! i = GPoint p"
  shows "\<exists>j < length target.
           compute_nearest_chunk STRtree distance heap df_chunk target ! i
             = (Some j, Some (dst p (heap (target ! j)))) \<and>
           (\<forall>k < length target. dst p (heap (target ! j)) \<le> dst p (heap (target ! k)))"
proof -
  from assms(4) obtain g where g: "g \<in> set target" "tree p = Inr g"
    and least: "\<forall>h \<in> set target. dst p (heap g) \<le> dst p (heap h)" by blast
  from idx_map_Some [OF g(1)] obtain j where j: "j < length target"
    "idx_map target g = Some j" "target ! j = g" by blast
  have "compute_nearest_chunk STRtree distance heap df_chunk target ! i
          = nearest_row tree dst heap (idx_map target) (GPoint p)"
    using assms(5,6)
    by (simp add: compute_nearest_chunk_rows [where STRtree = STRtree and target = target
          and tree = tree, OF assms(3,2)])
  also have "\<dots> = (Some j, Some (dst p (heap (target ! j))))"
    using g(2) j by (simp add: nearest_row_def)
  finally have "compute_nearest_chunk STRtree distance heap df_chunk target ! i
          = (Some j, Some (dst p (heap (target ! j))))" .
  moreover have "\<forall>k < length target. dst p (heap (target ! j)) \<le> dst p (heap (target ! k))"
    using least j(3) by simp
  ultimately show ?thesis using j(1) by blast
qed

text \<open>
  When the query returns an object that is none of the layer's, every lookup in \<open>idx_map\<close>
  raises and every row is null.
\<close>

lemma fold_nearest_step_foreign:
  assumes "\<forall>q g. tree q = Inr g \<longrightarrow> imap g = None"
  shows "fold (nearest_step tree distance heap imap) chunk (idxs, dists)
           = (idxs @ replicate (length chunk) None, dists @ replicate (length chunk) None)"
proof (induction chunk arbitrary: idxs dists)
  case Nil
  then show ?case by simp
next
  case (Cons geom chunk)
  have "nearest_step tree distance heap imap geom (idxs, dists) = (idxs @ [None], dists @ [None])"
    using assms
    by (auto simp: nearest_step_def split: pgeom.splits sum.splits option.splits)
  then show ?case using Cons by (simp add: replicate_app_Cons_same)
qed

lemma fold_max_ge: "(m::nat) \<le> fold max geoms m"
proof (induction geoms arbitrary: m)
  case Nil
  then show ?case by simp
next
  case (Cons a geoms)
  have "m \<le> max a m" by simp
  also have "\<dots> \<le> fold max geoms (max a m)" by (rule Cons)
  finally show ?case by simp
qed

lemma fold_max_upper: "g \<in> set geoms \<Longrightarrow> (g::nat) \<le> fold max geoms m"
proof (induction geoms arbitrary: m)
  case Nil
  then show ?case by simp
next
  case (Cons a geoms)
  show ?case
  proof (cases "g = a")
    case True
    have "a \<le> max a m" by simp
    also have "\<dots> \<le> fold max geoms (max a m)" by (rule fold_max_ge)
    finally show ?thesis using True by simp
  next
    case False
    with Cons.prems have "g \<in> set geoms" by simp
    then show ?thesis using Cons.IH by simp
  qed
qed

lemma fresh_object_foreign: "fresh_object geoms \<notin> set geoms"
proof
  assume "fresh_object geoms \<in> set geoms"
  then have "fresh_object geoms \<le> fold max geoms 0" by (rule fold_max_upper)
  then show False by (simp add: fresh_object_def)
qed

text \<open>
  Claim C1, where the code departs from it. Let the tree be built, and let \<open>nearest\<close> return
  objects that are none of the layer's geometry objects, as it does under Shapely 2 (an
  integer position) and under PyGEOS (a rebuilt object). Then the lookup of \<open>id(nearest)\<close>
  in \<open>idx_map\<close> raises for every point, the handler appends nulls, and
  \<open>compute_nearest_chunk\<close> returns a null index and a null distance for every point of the
  chunk, whatever the layer and the point.
\<close>

theorem compute_nearest_chunk_foreign_object:
  assumes "STRtree target = Inr tree"
    and "\<forall>q g. tree q = Inr g \<longrightarrow> g \<notin> set target"
  shows "compute_nearest_chunk STRtree distance heap df_chunk target
           = replicate (length df_chunk) (None, None)"
proof -
  from assms(2) have "\<forall>q g. tree q = Inr g \<longrightarrow> idx_map target g = None"
    by (simp add: idx_map_None)
  from fold_nearest_step_foreign [OF this, where distance = distance and heap = heap
      and chunk = df_chunk and idxs = "[]" and dists = "[]"]
  have "fold (nearest_step tree distance heap (idx_map target)) df_chunk ([], [])
          = (replicate (length df_chunk) None, replicate (length df_chunk) None)" by simp
  then show ?thesis
    using assms(1) by (simp add: compute_nearest_chunk_def zip_replicate)
qed

theorem compute_nearest_chunk_foreign_object_witness:
  "line_distance 130 (line_heap 1) = 30 \<and>
   compute_nearest_chunk position_STRtree line_distance_call line_heap [GNone, GPoint 130] [0, 1, 2]
     = [(None, None), (None, None)]"
proof -
  let ?target = "[0, 1, 2 :: addr]"
  let ?tree = "\<lambda>p :: real. Inr (fresh_object ?target) :: py_error + addr"
  have t: "position_STRtree ?target = Inr ?tree" by (simp add: position_STRtree_def)
  have f: "\<forall>q g. ?tree q = Inr g \<longrightarrow> g \<notin> set ?target"
    using fresh_object_foreign [of ?target] by auto
  from compute_nearest_chunk_foreign_object
         [where STRtree = position_STRtree and target = ?target and tree = ?tree
            and distance = line_distance_call and heap = line_heap
            and df_chunk = "[GNone, GPoint 130]", OF t f]
  have "compute_nearest_chunk position_STRtree line_distance_call line_heap [GNone, GPoint 130] ?target
          = replicate (length [GNone, GPoint (130::real)]) (None, None)" .
  moreover have "line_distance 130 (line_heap 1) = 30"
    by (simp add: line_distance_def line_heap_def)
  ultimately show ?thesis by (simp add: numeral_2_eq_2)
qed





section \<open>The parallel path and the sequential fallback\<close>

lemma concat_split_sizes: "concat (split_sizes xs ns) = take (sum_list ns) xs"
proof (induction ns arbitrary: xs)
  case Nil
  then show ?case by simp
next
  case (Cons n ns)
  then show ?case by (simp add: take_add)
qed

lemma length_split_sizes: "length (split_sizes xs ns) = length ns"
  by (induction ns arbitrary: xs) auto

lemma array_split_sizes_sum:
  assumes "0 < n"
  shows "sum_list (replicate (len mod n) (len div n + 1) @ replicate (n - len mod n) (len div n))
           = len"
proof -
  have r: "len mod n \<le> n" using assms by (simp add: less_imp_le)
  have "len mod n * (len div n + 1) + (n - len mod n) * (len div n)
          = (len mod n + (n - len mod n)) * (len div n) + len mod n"
    by (simp add: algebra_simps)
  also have "\<dots> = n * (len div n) + len mod n" using r by simp
  also have "\<dots> = len" by simp
  finally show ?thesis by (simp add: sum_list_replicate)
qed

lemma array_split_pos:
  assumes "0 < N"
  shows "\<exists>splits. array_split ary N = Inr splits \<and> length splits = nat N \<and> concat splits = ary"
proof -
  let ?n = "nat N"
  let ?sizes = "replicate (length ary mod ?n) (length ary div ?n + 1)
                  @ replicate (?n - length ary mod ?n) (length ary div ?n)"
  have n: "0 < ?n" using assms by simp
  have a: "array_split ary N = Inr (split_sizes ary ?sizes)"
    using assms by (simp add: array_split_def Let_def)
  have "length ary mod ?n \<le> ?n" using n by (simp add: less_imp_le)
  then have l: "length (split_sizes ary ?sizes) = ?n"
    by (simp add: length_split_sizes)
  have c: "concat (split_sizes ary ?sizes) = ary"
    unfolding concat_split_sizes array_split_sizes_sum [OF n] by simp
  from a l c show ?thesis by blast
qed

lemma concat_replicate_lengths:
  "concat (map (\<lambda>s. replicate (length s) x) splits) = replicate (length (concat splits)) x"
  by (induction splits) (auto simp: replicate_add)

lemma compute_nearest_chunk_concat:
  assumes "\<forall>q g. \<exists>d. distance q g = Inr d"
  shows "concat (map (\<lambda>s. compute_nearest_chunk STRtree distance heap s gdf) splits)
           = compute_nearest_chunk STRtree distance heap (concat splits) gdf"
proof (cases "STRtree gdf")
  case (Inl e)
  then show ?thesis
    using concat_replicate_lengths [of "(None, None) :: nat option \<times> fcell" splits]
    by (simp add: compute_nearest_chunk_def)
next
  case (Inr tree)
  note rows = compute_nearest_chunk_rows [where STRtree = STRtree and target = gdf
      and tree = tree, OF distance_total [OF assms] Inr]
  show ?thesis by (simp add: rows map_concat comp_def)
qed

lemma length_join_chunk:
  "length (join_chunk par_ok N STRtree distance heap chunk gdf) = length chunk"
proof (cases "0 < N")
  case True
  from array_split_pos [OF True, of chunk] obtain splits
    where s: "array_split chunk N = Inr splits" "concat splits = chunk" by blast
  have "length (concat (map (\<lambda>s. compute_nearest_chunk STRtree distance heap s gdf) splits))
          = length (concat splits)"
    by (simp add: length_concat comp_def length_compute_nearest_chunk)
  then show ?thesis using s by (simp add: join_chunk_def length_compute_nearest_chunk)
next
  case False
  then show ?thesis by (simp add: join_chunk_def array_split_def length_compute_nearest_chunk)
qed

lemma join_chunk_sequential:
  assumes "\<forall>q g. \<exists>d. distance q g = Inr d"
  shows "join_chunk par_ok N STRtree distance heap chunk gdf
           = compute_nearest_chunk STRtree distance heap chunk gdf"
proof (cases "0 < N")
  case True
  from array_split_pos [OF True, of chunk] obtain splits
    where s: "array_split chunk N = Inr splits" "concat splits = chunk" by blast
  then show ?thesis by (simp add: join_chunk_def compute_nearest_chunk_concat [OF assms])
next
  case False
  then show ?thesis by (simp add: join_chunk_def array_split_def)
qed


section \<open>Checkpoints and resumed runs\<close>

lemma process_chunk_skip:
  "(name, i * cs) \<in> set (checkpoints fs) \<Longrightarrow> process_chunk cs e name gdf (i, chunk) fs = fs"
  by (simp add: process_chunk_def)

lemma py_range_multiples:
  assumes "0 < cs" and "a \<le> n"
  shows "py_range (a * cs) (n * cs) cs = map (\<lambda>j. (a + j) * cs) [0..<n - a]"
proof -
  have d: "n * cs - a * cs = (n - a) * cs" by (simp add: diff_mult_distrib)
  have "(n - a) * cs + cs - 1 = (n - a) * cs + (cs - 1)" using assms(1) by simp
  moreover have "((n - a) * cs + (cs - 1)) div cs = (n - a) + (cs - 1) div cs"
    using assms(1) by (simp only: div_mult_self3 [of cs "n - a" "cs - 1"] neq0_conv)
  moreover have "(cs - 1) div cs = 0" using assms(1) by simp
  ultimately have "(n * cs - a * cs + cs - 1) div cs = n - a" unfolding d by simp
  then show ?thesis using assms(1) by (simp add: py_range_def algebra_simps)
qed

lemma length_out_chunk: "length (out_chunk e name gdf chunk) = length chunk"
  by (simp add: out_chunk_def Let_def length_join_chunk)

lemma out_chunk_sites:
  "map (\<lambda>r. attrs (rec r)) (filter (\<lambda>r. layer r = name) (out_chunk e name gdf chunk))
     = map attrs chunk"
proof -
  let ?merged = "join_chunk (env_par_ok e) (N_JOBS (env_cpu_count e)) (env_STRtree e) (env_distance e)
                     (env_heap e) (map geometry chunk) gdf"
  have l: "length ?merged = length chunk"
    by (simp add: length_join_chunk)
  have f: "filter (\<lambda>r. layer r = name) (out_chunk e name gdf chunk) = out_chunk e name gdf chunk"
    by (auto simp: out_chunk_def Let_def filter_id_conv in_set_zip)
  have "map (\<lambda>r. attrs (rec r)) (out_chunk e name gdf chunk) = map attrs (map fst (zip chunk ?merged))"
    by (simp add: out_chunk_def Let_def case_prod_unfold comp_def)
  also have "\<dots> = map attrs chunk" using l by simp
  finally show ?thesis using f by simp
qed

lemma chunks_from_multiples:
  assumes "0 < cs" and "length chemdf = n * cs" and "a \<le> n"
  shows "chunks_from cs (a * cs) chemdf = map (\<lambda>j. take cs (drop ((a + j) * cs) chemdf)) [0..<n - a]"
  using py_range_multiples [OF assms(1,3)] assms(2) by (simp add: chunks_from_def comp_def)

lemma upt_5: "[0..<5] = [0, 1, 2, 3, 4]" and upt_4: "[0..<4] = [0, 1, 2, 3]"
  by code_simp+

lemma sites_of_out_file:
  "out_file fs = Some out \<Longrightarrow>
   sites_of name fs = map (\<lambda>r. attrs (rec r)) (filter (\<lambda>r. layer r = name) out)"
  by (simp add: sites_of_def)

lemma interrupted_two:
  assumes "0 < cs" and "length chemdf = 5 * cs"
  shows "interrupted cs e chemdf (name, gdf) 2
           = \<lparr>checkpoints = [(name, 0), (name, cs)],
              out_file = Some (out_chunk e name gdf (take cs chemdf)
                                @ out_chunk e name gdf (take cs (drop cs chemdf)))\<rparr>"
proof -
  have "chunks_from cs (0 * cs) chemdf = map (\<lambda>j. take cs (drop ((0 + j) * cs) chemdf)) [0..<5 - 0]"
    using assms by (intro chunks_from_multiples) simp_all
  then have c: "chunks_from cs 0 chemdf
      = [take cs chemdf, take cs (drop cs chemdf), take cs (drop (2 * cs) chemdf),
         take cs (drop (3 * cs) chemdf), take cs (drop (4 * cs) chemdf)]"
    by (simp add: upt_5)
  show ?thesis
    using assms(1)
    by (simp add: interrupted_def c enumerate_simps process_chunk_def append_to_output_def
        numeral_2_eq_2)
qed

lemma resumed_after_two:
  assumes "0 < cs" and "length chemdf = 5 * cs" and "gdf \<noteq> []"
    and "fs = \<lparr>checkpoints = [(name, 0), (name, cs)], out_file = Some old\<rparr>"
  shows "main_loop cs e chemdf [(name, gdf)] fs
           = \<lparr>checkpoints = [],
              out_file = Some (old @ out_chunk e name gdf (take cs (drop (3 * cs) chemdf))
                                   @ out_chunk e name gdf (take cs (drop (4 * cs) chemdf)))\<rparr>"
proof -
  have l: "latest_checkpoint fs = cs" by (simp add: latest_checkpoint_def assms(4))
  have cf: "chunks_from cs (1 * cs) chemdf
              = map (\<lambda>j. take cs (drop ((1 + j) * cs) chemdf)) [0..<5 - 1]"
    using assms by (intro chunks_from_multiples) simp_all
  have n: "[0..<5 - 1] = [0, 1, 2, 3 :: nat]" by (simp add: upt_4)
  have e: "(1 + 0) * cs = cs" "(1 + 1) * cs = 2 * cs" "(1 + 2) * cs = 3 * cs"
    "(1 + 3) * cs = 4 * cs" "1 * cs = cs" by simp_all
  have c: "chunks_from cs cs chemdf
      = [take cs (drop cs chemdf), take cs (drop (2 * cs) chemdf),
         take cs (drop (3 * cs) chemdf), take cs (drop (4 * cs) chemdf)]"
    using cf unfolding n list.map e .
  have "fold (process_chunk cs e name gdf) (enumerate 0 (chunks_from cs cs chemdf)) fs
          = \<lparr>checkpoints = [(name, 0), (name, cs), (name, 2 * cs), (name, 3 * cs)],
             out_file = Some (old @ out_chunk e name gdf (take cs (drop (3 * cs) chemdf))
                                  @ out_chunk e name gdf (take cs (drop (4 * cs) chemdf)))\<rparr>"
    using assms(1)
    by (simp add: c assms(4) enumerate_simps process_chunk_def append_to_output_def)
  then show ?thesis
    using assms(1,3) l
    by (simp add: main_loop_def Let_def process_layer_def reset_checkpoints_def)
qed

text \<open>
  Claim C4 at a resumed run. A chunk whose checkpoint exists is skipped
  (\<open>process_chunk_skip\<close>). But take any chunk size, five chunks of chemistry records and
  one non-empty layer. A first run that is interrupted after two chunks leaves the
  checkpoints 0 and \<open>cs\<close> and the records of the first two chunks in the output. The next
  run resumes at \<open>start_idx = cs\<close> and names its chunks 0, \<open>cs\<close>, \<open>2 cs\<close>, \<open>3 cs\<close> again,
  so it skips its first two chunks: the output ends with the records of the chunks 0, 1, 3
  and 4, and the records of the third chunk are in it not once but never.
\<close>

theorem resumed_run_skips_block:
  assumes "0 < cs" and "length chemdf = 5 * cs" and "gdf \<noteq> []"
  shows "checkpoints (interrupted cs e chemdf (name, gdf) 2) = [(name, 0), (name, cs)] \<and>
         sites_of name (interrupted cs e chemdf (name, gdf) 2) = map attrs (take (2 * cs) chemdf) \<and>
         sites_of name (main_loop cs e chemdf [(name, gdf)] (interrupted cs e chemdf (name, gdf) 2))
           = map attrs (take (2 * cs) chemdf) @ map attrs (drop (3 * cs) chemdf)"
proof -
  let ?old = "out_chunk e name gdf (take cs chemdf) @ out_chunk e name gdf (take cs (drop cs chemdf))"
  let ?fs = "\<lparr>checkpoints = [(name, 0), (name, cs)], out_file = Some ?old\<rparr>
               :: ('a, 'b) files"
  have i: "interrupted cs e chemdf (name, gdf) 2 = ?fs"
    using assms(1,2) by (rule interrupted_two)
  have t2: "take cs chemdf @ take cs (drop cs chemdf) = take (2 * cs) chemdf"
    by (simp add: take_add mult_2)
  have "take cs (drop (3 * cs) chemdf) @ take cs (drop (4 * cs) chemdf)
          = take (2 * cs) (drop (3 * cs) chemdf)"
    by (simp add: take_add mult_2 add.commute)
  also have "\<dots> = drop (3 * cs) chemdf" using assms(2) by simp
  finally have d3: "take cs (drop (3 * cs) chemdf) @ take cs (drop (4 * cs) chemdf) = drop (3 * cs) chemdf" .
  have oc: "\<And>chunk. map (\<lambda>r. attrs (rec r))
                 (filter (\<lambda>r. layer r = name) (out_chunk e name gdf chunk)) = map attrs chunk"
    by (rule out_chunk_sites)
  have "sites_of name ?fs = map attrs (take cs chemdf) @ map attrs (take cs (drop cs chemdf))"
    by (simp add: sites_of_def oc)
  also have "\<dots> = map attrs (take cs chemdf @ take cs (drop cs chemdf))" by simp
  finally have s1: "sites_of name ?fs = map attrs (take (2 * cs) chemdf)" unfolding t2 .
  have r: "main_loop cs e chemdf [(name, gdf)] ?fs
           = \<lparr>checkpoints = [],
              out_file = Some (?old @ out_chunk e name gdf (take cs (drop (3 * cs) chemdf))
                                   @ out_chunk e name gdf (take cs (drop (4 * cs) chemdf)))\<rparr>"
    using assms by (intro resumed_after_two) simp_all
  have "sites_of name (main_loop cs e chemdf [(name, gdf)] ?fs)
          = map attrs (take cs chemdf @ take cs (drop cs chemdf))
            @ map attrs (take cs (drop (3 * cs) chemdf) @ take cs (drop (4 * cs) chemdf))"
    unfolding r by (simp add: sites_of_def oc)
  then have s2: "sites_of name (main_loop cs e chemdf [(name, gdf)] ?fs)
              = map attrs (take (2 * cs) chemdf) @ map attrs (drop (3 * cs) chemdf)"
    unfolding t2 d3 .
  show ?thesis unfolding i using s1 s2 by simp
qed

lemma line_chem_take: "k \<le> n \<Longrightarrow> map attrs (take k (line_chem n)) = [0..<k]"
  by (simp add: line_chem_def take_map comp_def)

lemma line_chem_drop: "map attrs (drop k (line_chem n)) = [k..<n]"
  by (simp add: line_chem_def drop_map comp_def)

theorem resumed_run_skips_block_witness:
  "sites_of ''AML''
     (main line_env (line_chem 150000) [(''AML'', [0, 1, 2])]
        (interrupted CHUNK_SIZE line_env (line_chem 150000) (''AML'', [0, 1, 2]) 2))
   = [0..<60000] @ [90000..<150000]"
proof -
  have a: "0 < CHUNK_SIZE" by (simp add: CHUNK_SIZE_def)
  have b: "length (line_chem 150000) = 5 * CHUNK_SIZE" by (simp add: line_chem_def CHUNK_SIZE_def)
  have c: "[0, 1, 2 :: addr] \<noteq> []" by simp
  have k2: "2 * CHUNK_SIZE = 60000" and k3: "3 * CHUNK_SIZE = 90000"
    by (simp_all add: CHUNK_SIZE_def)
  have "(60000::nat) \<le> 150000" by simp
  then have t: "map attrs (take 60000 (line_chem 150000)) = [0..<60000]"
    by (rule line_chem_take)
  have d: "map attrs (drop 90000 (line_chem 150000)) = [90000..<150000]"
    by (rule line_chem_drop)
  note r = resumed_run_skips_block [OF a b c, of line_env "''AML''", THEN conjunct2, THEN conjunct2]
  then show ?thesis unfolding k2 k3 t d main_def .
qed

text \<open>
  The same on a run small enough to compute: chunks of 2 records, 10 records and one layer.
  After two chunks the resumed run never joins the records 4 and 5. After an interruption
  in the first chunk the latest checkpoint has index 0, the run starts afresh over the old
  output, and the records 0 and 1 are in the output twice.
\<close>

lemma resumed_run_small:
  "checkpoints (interrupted 2 line_env (line_chem 10) (''AML'', [0, 1, 2]) 2)
     = [(''AML'', 0), (''AML'', 2)] \<and>
   sites_of ''AML'' (interrupted 2 line_env (line_chem 10) (''AML'', [0, 1, 2]) 2)
     = [0, 1, 2, 3] \<and>
   sites_of ''AML'' (main_loop 2 line_env (line_chem 10) [(''AML'', [0, 1, 2])]
                      (interrupted 2 line_env (line_chem 10) (''AML'', [0, 1, 2]) 2))
     = [0, 1, 2, 3, 6, 7, 8, 9] \<and>
   sites_of ''AML'' (main_loop 2 line_env (line_chem 10) [(''AML'', [0, 1, 2])]
                      (interrupted 2 line_env (line_chem 10) (''AML'', [0, 1, 2]) 1))
     = [0, 1, 0, 1, 2, 3, 4, 5, 6, 7, 8, 9]"
proof (intro conjI)
  show "checkpoints (interrupted 2 line_env (line_chem 10) (''AML'', [0, 1, 2]) 2)
     = [(''AML'', 0), (''AML'', 2)]"
    by code_simp
  show "sites_of ''AML'' (interrupted 2 line_env (line_chem 10) (''AML'', [0, 1, 2]) 2)
     = [0, 1, 2, 3]"
    by code_simp
  show "sites_of ''AML'' (main_loop 2 line_env (line_chem 10) [(''AML'', [0, 1, 2])]
                      (interrupted 2 line_env (line_chem 10) (''AML'', [0, 1, 2]) 2))
     = [0, 1, 2, 3, 6, 7, 8, 9]"
    by code_simp
  show "sites_of ''AML'' (main_loop 2 line_env (line_chem 10) [(''AML'', [0, 1, 2])]
                      (interrupted 2 line_env (line_chem 10) (''AML'', [0, 1, 2]) 1))
     = [0, 1, 0, 1, 2, 3, 4, 5, 6, 7, 8, 9]"
    by code_simp
qed

section \<open>Properties of the join within the search radius\<close>





lemma Min_in_list: "xs \<noteq> [] \<Longrightarrow> Min (set xs) \<in> set xs"
  by (rule Min_in) simp_all



lemma joined_rows_nonempty: "joined_rows distance mines R p \<noteq> []"
proof (cases "filter (\<lambda>d. d \<le> R) (map (distance p) mines) = []")
  case True
  then show ?thesis by (simp add: joined_rows_def)
next
  case False
  let ?near = "filter (\<lambda>d. d \<le> R) (map (distance p) mines)"
  have "Min (set ?near) \<in> set ?near" using False by (rule Min_in_list)
  then have "filter (\<lambda>d. d = Min (set ?near)) ?near \<noteq> []"
    by (auto simp: filter_empty_conv)
  then show ?thesis using False by (simp add: joined_rows_def Let_def)
qed









section \<open>Properties of the nearest mine over all layers\<close>







section \<open>Properties of \<open>safe_norm\<close>\<close>

lemma length_safe_norm: "length (safe_norm s) = length s"
  by (simp add: safe_norm_def Let_def)

lemma safe_norm_nth:
  assumes "i < length s"
  shows "safe_norm s ! i =
           (case s ! i of None \<Rightarrow> None
            | Some v \<Rightarrow> fdiv (v - Min (set (dropna s))) (Max (set (dropna s)) - Min (set (dropna s))))"
proof (cases "dropna s = []")
  case True
  then have "s ! i = None" using assms by (simp add: dropna_Nil_iff)
  then show ?thesis using True assms by (simp add: safe_norm_def)
next
  case False
  then show ?thesis using assms by (simp add: safe_norm_def Let_def)
qed

lemma dropna_bounds:
  assumes "v \<in> set (dropna s)"
  shows "Min (set (dropna s)) \<le> v" and "v \<le> Max (set (dropna s))"
  using assms by simp_all

lemma safe_norm_zero_den:
  assumes "i < length s" and "s ! i = Some v"
    and "Max (set (dropna s)) - Min (set (dropna s)) = 0"
  shows "v - Min (set (dropna s)) = 0"
proof -
  have "v \<in> set (dropna s)" using assms(1,2) by (rule nth_in_dropna)
  then have "Min (set (dropna s)) \<le> v" "v \<le> Max (set (dropna s))"
    by (rule dropna_bounds)+
  then show ?thesis using assms(3) by linarith
qed

lemma safe_norm_Some:
  assumes "i < length s" and "safe_norm s ! i = Some y"
  shows "\<exists>v. s ! i = Some v \<and> Min (set (dropna s)) < Max (set (dropna s)) \<and>
             y = (v - Min (set (dropna s))) / (Max (set (dropna s)) - Min (set (dropna s)))"
proof -
  let ?lo = "Min (set (dropna s))" and ?hi = "Max (set (dropna s))"
  from assms obtain v where v: "s ! i = Some v" and d: "fdiv (v - ?lo) (?hi - ?lo) = Some y"
    by (auto simp: safe_norm_nth split: option.splits)
  from d have ne: "?hi - ?lo \<noteq> 0" and y: "y = (v - ?lo) / (?hi - ?lo)"
    by (auto simp: fdiv_def split: if_splits)
  have "v \<in> set (dropna s)" using assms(1) v by (rule nth_in_dropna)
  then have "?lo \<le> v" "v \<le> ?hi" by (rule dropna_bounds)+
  with ne have "?lo < ?hi" by linarith
  with v y show ?thesis by blast
qed

lemma safe_norm_unit:
  assumes "i < length s" and "safe_norm s ! i = Some y"
  shows "0 \<le> y \<and> y \<le> 1"
proof -
  let ?lo = "Min (set (dropna s))" and ?hi = "Max (set (dropna s))"
  from safe_norm_Some [OF assms] obtain v where v: "s ! i = Some v" and lt: "?lo < ?hi"
    and y: "y = (v - ?lo) / (?hi - ?lo)" by blast
  have "v \<in> set (dropna s)" using assms(1) v by (rule nth_in_dropna)
  then have "?lo \<le> v" "v \<le> ?hi" by (rule dropna_bounds)+
  with lt y show ?thesis by simp
qed

lemma safe_norm_nondegenerate:
  assumes "i < length s" and "s ! i = Some v"
    and "Min (set (dropna s)) < Max (set (dropna s))"
  shows "safe_norm s ! i =
           Some ((v - Min (set (dropna s))) / (Max (set (dropna s)) - Min (set (dropna s))))"
  using assms by (simp add: safe_norm_nth fdiv_def)

lemma two_distinct_spread:
  assumes "a \<in> set (dropna s)" and "b \<in> set (dropna s)" and "a \<noteq> b"
  shows "Min (set (dropna s)) < Max (set (dropna s))"
proof -
  have "Min (set (dropna s)) \<le> min a b" using assms(1,2) by simp
  moreover have "max a b \<le> Max (set (dropna s))" using assms(1,2) by simp
  moreover have "min a b < max a b" using assms(3) by (simp add: min_def max_def)
  ultimately show ?thesis by linarith
qed

lemma safe_norm_all_null:
  assumes "\<forall>x \<in> set s. x = None"
  shows "safe_norm s = replicate (length s) None"
  using assms by (simp add: safe_norm_def dropna_Nil_iff)

lemma safe_norm_degenerate:
  assumes "Max (set (dropna s)) = Min (set (dropna s))"
  shows "safe_norm s = replicate (length s) None"
proof (rule nth_equalityI)
  show "length (safe_norm s) = length (replicate (length s) None)"
    by (simp add: length_safe_norm)
next
  fix i assume "i < length (safe_norm s)"
  then have i: "i < length s" by (simp add: length_safe_norm)
  then have "safe_norm s ! i = None"
    using assms by (simp add: safe_norm_nth fdiv_def split: option.splits)
  then show "safe_norm s ! i = replicate (length s) None ! i" using i by simp
qed

lemma safe_norm_mono:
  assumes "i < length s" and "j < length s"
    and "s ! i = Some x" and "s ! j = Some y" and "x \<le> y"
    and "safe_norm s ! i = Some a" and "safe_norm s ! j = Some b"
  shows "a \<le> b"
proof -
  let ?lo = "Min (set (dropna s))" and ?hi = "Max (set (dropna s))"
  from safe_norm_Some [OF assms(1,6)] assms(3)
  have lt: "?lo < ?hi" and a: "a = (x - ?lo) / (?hi - ?lo)" by auto
  from safe_norm_Some [OF assms(2,7)] assms(4)
  have b: "b = (y - ?lo) / (?hi - ?lo)" by auto
  from lt assms(5) show ?thesis unfolding a b by (simp add: divide_right_mono)
qed

section \<open>Properties of the watershed health index\<close>

lemma length_chem_score: "length (chem_score cs data) = length data"
  by (simp add: chem_score_def)

lemma length_dist_inv: "length (dist_inv data) = length data"
  by (simp add: dist_inv_def length_safe_norm)

lemma chem_score_nth:
  "i < length data \<Longrightarrow>
   chem_score cs data ! i = mean_skipna (map (\<lambda>c. chem_norm data c ! i) cs)"
  by (simp add: chem_score_def)

lemma Sickness_Index_nth:
  "i < length data \<Longrightarrow>
   Sickness_Index cs data ! i = weighted (chem_score cs data ! i) (dist_inv data ! i)"
  by (simp add: Sickness_Index_def length_chem_score length_dist_inv)

lemma sum_list_le_length:
  fixes v :: "real list"
  assumes "\<forall>x \<in> set v. x \<le> 1"
  shows "sum_list v \<le> real (length v)"
  using assms by (induction v) auto

lemma mean_skipna_unit:
  assumes "mean_skipna xs = Some m" and "\<forall>v \<in> set (dropna xs). 0 \<le> v \<and> v \<le> 1"
  shows "0 \<le> m \<and> m \<le> 1"
proof -
  let ?v = "dropna xs"
  from assms(1) have ne: "?v \<noteq> []" and m: "m = sum_list ?v / real (length ?v)"
    by (auto simp: mean_skipna_def Let_def split: if_splits)
  have "0 \<le> sum_list ?v" using assms(2) by (simp add: sum_list_nonneg)
  moreover have "sum_list ?v \<le> real (length ?v)" using assms(2) by (simp add: sum_list_le_length)
  moreover have "0 < real (length ?v)" using ne by simp
  ultimately show ?thesis unfolding m by simp
qed

lemma chem_score_unit:
  assumes "i < length data" and "chem_score cs data ! i = Some c"
  shows "0 \<le> c \<and> c \<le> 1"
proof (rule mean_skipna_unit)
  show "mean_skipna (map (\<lambda>c. chem_norm data c ! i) cs) = Some c"
    using assms by (simp add: chem_score_nth)
next
  show "\<forall>v \<in> set (dropna (map (\<lambda>c. chem_norm data c ! i) cs)). 0 \<le> v \<and> v \<le> 1"
  proof
    fix v assume "v \<in> set (dropna (map (\<lambda>c. chem_norm data c ! i) cs))"
    then obtain c where "chem_norm data c ! i = Some v"
      by (auto simp: set_dropna)
    then have "safe_norm (map (\<lambda>r. chem r c) data) ! i = Some v"
      by (simp add: chem_norm_def)
    moreover have "i < length (map (\<lambda>r. chem r c) data)" using assms(1) by simp
    ultimately show "0 \<le> v \<and> v \<le> 1" by (rule safe_norm_unit [rotated])
  qed
qed

lemma dist_inv_Some:
  assumes "i < length data" and "dist_inv data ! i = Some d"
  shows "\<exists>nd. safe_norm (map dist data) ! i = Some nd \<and> d = 1 - nd \<and> 0 \<le> d \<and> d \<le> 1"
proof (cases "list_ex (\<lambda>r. dist r \<noteq> None) data")
  case True
  then have "map (map_option (\<lambda>v. 1 - v)) (safe_norm (map dist data)) ! i = Some d"
    using assms(2) by (simp add: dist_inv_def)
  then obtain nd where nd: "safe_norm (map dist data) ! i = Some nd" and d: "d = 1 - nd"
    using assms(1) by (auto simp: length_safe_norm)
  have "i < length (map dist data)" using assms(1) by simp
  then have "0 \<le> nd \<and> nd \<le> 1" using nd by (rule safe_norm_unit)
  with nd d show ?thesis by simp
next
  case False
  then show ?thesis using assms by (simp add: dist_inv_def)
qed

lemma set_dropna_map: "set (dropna (map f xs)) = {v. \<exists>r \<in> set xs. f r = Some v}"
  by (force simp: set_dropna)

text \<open>
  Claim C6. For a record whose \<open>chem_score\<close> and \<open>dist_inv\<close> are both non-null, the index is
  \<open>0.6 * chem_score + 0.4 * dist_inv\<close>. Here \<open>chem_score\<close> is the sum of the record's non-null
  normalised chemistry values over their number, a normalised value being
  \<open>(x - min) / (max - min)\<close> over the non-null values of its column, and \<open>dist_inv\<close> is one
  minus the distance normalised in the same way. This is the documented formula, and the
  value lies between 0 and 1.
\<close>

theorem Sickness_Index_formula:
  assumes "i < length data"
    and "chem_score cs data ! i = Some c"
    and "dist_inv data ! i = Some d"
  shows "Sickness_Index cs data ! i = Some (0.6 * c + 0.4 * d) \<and>
         (\<exists>vs. vs = [v. Some v \<leftarrow> map (\<lambda>col. safe_norm (map (\<lambda>r. chem r col) data) ! i) cs] \<and>
               vs \<noteq> [] \<and> c = sum_list vs / real (length vs)) \<and>
         (\<forall>col x. chem (data ! i) col = Some x \<and>
              Min {v. \<exists>r \<in> set data. chem r col = Some v} < Max {v. \<exists>r \<in> set data. chem r col = Some v}
            \<longrightarrow> safe_norm (map (\<lambda>r. chem r col) data) ! i
                  = Some ((x - Min {v. \<exists>r \<in> set data. chem r col = Some v})
                          / (Max {v. \<exists>r \<in> set data. chem r col = Some v}
                             - Min {v. \<exists>r \<in> set data. chem r col = Some v}))) \<and>
         (\<exists>x nd. dist (data ! i) = Some x \<and>
              nd = (x - Min {v. \<exists>r \<in> set data. dist r = Some v})
                   / (Max {v. \<exists>r \<in> set data. dist r = Some v}
                      - Min {v. \<exists>r \<in> set data. dist r = Some v}) \<and>
              d = 1 - nd \<and>
              Sickness_Index cs data ! i = Some (documented_S c nd)) \<and>
         0 \<le> 0.6 * c + 0.4 * d \<and> 0.6 * c + 0.4 * d \<le> 1"
proof -
  have si: "Sickness_Index cs data ! i = Some (0.6 * c + 0.4 * d)"
    using assms by (simp add: Sickness_Index_nth weighted_def)
  let ?vs = "[v. Some v \<leftarrow> map (\<lambda>col. safe_norm (map (\<lambda>r. chem r col) data) ! i) cs]"
  have "mean_skipna (map (\<lambda>col. safe_norm (map (\<lambda>r. chem r col) data) ! i) cs) = Some c"
    using assms(1,2) by (simp add: chem_score_nth chem_norm_def)
  then have "?vs \<noteq> [] \<and> c = sum_list ?vs / real (length ?vs)"
    unfolding mean_skipna_def dropna_def Let_def by (simp split: if_splits)
  then have cm: "\<exists>vs. vs = ?vs \<and> vs \<noteq> [] \<and> c = sum_list vs / real (length vs)" by blast
  have cn: "\<forall>col x. chem (data ! i) col = Some x \<and>
              Min {v. \<exists>r \<in> set data. chem r col = Some v} < Max {v. \<exists>r \<in> set data. chem r col = Some v}
            \<longrightarrow> safe_norm (map (\<lambda>r. chem r col) data) ! i
                  = Some ((x - Min {v. \<exists>r \<in> set data. chem r col = Some v})
                          / (Max {v. \<exists>r \<in> set data. chem r col = Some v}
                             - Min {v. \<exists>r \<in> set data. chem r col = Some v}))"
  proof (intro allI impI)
    fix col x
    assume h: "chem (data ! i) col = Some x \<and>
              Min {v. \<exists>r \<in> set data. chem r col = Some v} < Max {v. \<exists>r \<in> set data. chem r col = Some v}"
    have "i < length (map (\<lambda>r. chem r col) data)" using assms(1) by simp
    moreover have "map (\<lambda>r. chem r col) data ! i = Some x" using assms(1) h by simp
    moreover have "Min (set (dropna (map (\<lambda>r. chem r col) data)))
                     < Max (set (dropna (map (\<lambda>r. chem r col) data)))"
      using h unfolding set_dropna_map by simp
    ultimately have "safe_norm (map (\<lambda>r. chem r col) data) ! i
        = Some ((x - Min (set (dropna (map (\<lambda>r. chem r col) data))))
                / (Max (set (dropna (map (\<lambda>r. chem r col) data)))
                   - Min (set (dropna (map (\<lambda>r. chem r col) data)))))"
      by (rule safe_norm_nondegenerate)
    then show "safe_norm (map (\<lambda>r. chem r col) data) ! i
                  = Some ((x - Min {v. \<exists>r \<in> set data. chem r col = Some v})
                          / (Max {v. \<exists>r \<in> set data. chem r col = Some v}
                             - Min {v. \<exists>r \<in> set data. chem r col = Some v}))"
      unfolding set_dropna_map .
  qed
  from dist_inv_Some [OF assms(1,3)] obtain nd
    where nd: "safe_norm (map dist data) ! i = Some nd" and d: "d = 1 - nd"
      and du: "0 \<le> d" "d \<le> 1" by blast
  have "i < length (map dist data)" using assms(1) by simp
  from safe_norm_Some [OF this nd] obtain x where x: "map dist data ! i = Some x"
    and ndx: "nd = (x - Min (set (dropna (map dist data))))
                   / (Max (set (dropna (map dist data))) - Min (set (dropna (map dist data))))"
    by blast
  have cu: "0 \<le> c" "c \<le> 1" using chem_score_unit [OF assms(1,2)] by simp_all
  have doc: "Sickness_Index cs data ! i = Some (documented_S c nd)"
    using si d by (simp add: documented_S_def)
  have dn: "\<exists>x nd. dist (data ! i) = Some x \<and>
              nd = (x - Min {v. \<exists>r \<in> set data. dist r = Some v})
                   / (Max {v. \<exists>r \<in> set data. dist r = Some v}
                      - Min {v. \<exists>r \<in> set data. dist r = Some v}) \<and>
              d = 1 - nd \<and>
              Sickness_Index cs data ! i = Some (documented_S c nd)"
    using x ndx d doc assms(1) unfolding set_dropna_map by auto
  have lo: "0 \<le> 0.6 * c + 0.4 * d" using cu du by simp
  have hi: "0.6 * c + 0.4 * d \<le> 1" using cu du by simp
  from si cm cn dn lo hi show ?thesis by blast
qed

theorem Sickness_Index_formula_witness:
  "Sickness_Index [''Fe'', ''ResultMeasureValue'']
     [\<lparr>huc = Some (1::nat), dist = Some 10,
        chem = (\<lambda>c. if c = ''Fe'' then Some 1 else if c = ''ResultMeasureValue'' then Some 10 else None)\<rparr>,
      \<lparr>huc = Some 2, dist = Some 20,
        chem = (\<lambda>c. if c = ''Fe'' then Some 3 else if c = ''ResultMeasureValue'' then Some 20 else None)\<rparr>,
      \<lparr>huc = Some 2, dist = Some 30,
        chem = (\<lambda>c. if c = ''Fe'' then Some 2 else if c = ''ResultMeasureValue'' then Some 40 else None)\<rparr>] ! 1
   = Some (3 / 5)"
proof -
  let ?data = "[\<lparr>huc = Some (1::nat), dist = Some 10,
        chem = (\<lambda>c. if c = ''Fe'' then Some 1 else if c = ''ResultMeasureValue'' then Some 10 else None)\<rparr>,
      \<lparr>huc = Some 2, dist = Some 20,
        chem = (\<lambda>c. if c = ''Fe'' then Some 3 else if c = ''ResultMeasureValue'' then Some 20 else None)\<rparr>,
      \<lparr>huc = Some 2, dist = Some 30,
        chem = (\<lambda>c. if c = ''Fe'' then Some 2 else if c = ''ResultMeasureValue'' then Some 40 else None)\<rparr>]"
  have i: "1 < length ?data" by simp
  have c: "chem_score [''Fe'', ''ResultMeasureValue''] ?data ! 1 = Some ((1 + 1 / 3) / 2)"
    by code_simp
  have d: "dist_inv ?data ! 1 = Some (1 / 2)" by code_simp
  from Sickness_Index_formula [OF i c d]
  have "Sickness_Index [''Fe'', ''ResultMeasureValue''] ?data ! 1
          = Some (0.6 * ((1 + 1 / 3) / 2) + 0.4 * (1 / 2))" by (rule conjunct1)
  then show ?thesis by simp
qed

text \<open>A column whose non-null values are all equal has an all-null normalisation.\<close>

lemma safe_norm_constant:
  assumes "\<forall>a b. Some a \<in> set s \<and> Some b \<in> set s \<longrightarrow> a = b"
  shows "safe_norm s = replicate (length s) None"
proof (cases "dropna s = []")
  case True
  then show ?thesis by (simp add: safe_norm_def)
next
  case False
  then obtain a where a: "a \<in> set (dropna s)" by (meson last_in_set)
  have "set (dropna s) = {a}"
  proof
    show "set (dropna s) \<subseteq> {a}" using assms a by (auto simp: set_dropna)
    show "{a} \<subseteq> set (dropna s)" using a by simp
  qed
  then have "Max (set (dropna s)) = Min (set (dropna s))" by simp
  then show ?thesis by (rule safe_norm_degenerate)
qed

lemma dist_inv_constant:
  assumes "\<forall>a b. Some a \<in> set (map dist data) \<and> Some b \<in> set (map dist data) \<longrightarrow> a = b"
  shows "dist_inv data = replicate (length data) None"
  using safe_norm_constant [OF assms] by (simp add: dist_inv_def)

lemma weighted_None [simp]: "weighted c None = None" "weighted None d = None"
  by (simp_all add: weighted_def split: option.splits)

lemma Sickness_Index_dist_constant:
  assumes "\<forall>a b. Some a \<in> set (map dist data) \<and> Some b \<in> set (map dist data) \<longrightarrow> a = b"
  shows "Sickness_Index cs data = replicate (length data) None"
proof (rule nth_equalityI)
  show "length (Sickness_Index cs data) = length (replicate (length data) None)"
    by (simp add: Sickness_Index_def length_chem_score length_dist_inv)
next
  fix i assume "i < length (Sickness_Index cs data)"
  then have i: "i < length data"
    by (simp add: Sickness_Index_def length_chem_score length_dist_inv)
  then show "Sickness_Index cs data ! i = replicate (length data) None ! i"
    by (simp add: Sickness_Index_nth dist_inv_constant [OF assms])
qed

lemma mean_skipna_all_None:
  assumes "\<forall>x \<in> set xs. x = None"
  shows "mean_skipna xs = None"
  using assms by (simp add: mean_skipna_def dropna_Nil_iff)

lemma Sickness_Index_chem_constant:
  assumes "\<forall>c \<in> set cs. \<forall>a b. Some a \<in> set (map (\<lambda>r. chem r c) data) \<and>
              Some b \<in> set (map (\<lambda>r. chem r c) data) \<longrightarrow> a = b"
  shows "Sickness_Index cs data = replicate (length data) None"
proof (rule nth_equalityI)
  show "length (Sickness_Index cs data) = length (replicate (length data) None)"
    by (simp add: Sickness_Index_def length_chem_score length_dist_inv)
next
  fix i assume "i < length (Sickness_Index cs data)"
  then have i: "i < length data"
    by (simp add: Sickness_Index_def length_chem_score length_dist_inv)
  have "\<forall>x \<in> set (map (\<lambda>c. chem_norm data c ! i) cs). x = None"
  proof
    fix x assume "x \<in> set (map (\<lambda>c. chem_norm data c ! i) cs)"
    then obtain c where c: "c \<in> set cs" and x: "x = chem_norm data c ! i" by auto
    from assms c
    have "safe_norm (map (\<lambda>r. chem r c) data) = replicate (length (map (\<lambda>r. chem r c) data)) None"
      by (intro safe_norm_constant) blast
    then show "x = None" using x i by (simp add: chem_norm_def)
  qed
  then have "chem_score cs data ! i = None"
    using i by (simp add: chem_score_nth mean_skipna_all_None)
  then show "Sickness_Index cs data ! i = replicate (length data) None ! i"
    using i by (simp add: Sickness_Index_nth)
qed

text \<open>
  Claim C8, as stated, ends with: a column whose non-null values are all equal normalises to
  nulls, so the \<open>Sickness_Index\<close> of its records is null. That fails for a chemistry column:
  the row mean skips its nulls and the other chemistry columns still give a score. Here
  \<open>Fe\<close> is constant and both records have an index.
\<close>

theorem constant_chem_column_counterexample:
  "safe_norm (map (\<lambda>r. chem r ''Fe'')
     [\<lparr>huc = Some (1::nat), dist = Some 10,
        chem = (\<lambda>c. if c = ''Fe'' then Some 5 else if c = ''ResultMeasureValue'' then Some 1 else None)\<rparr>,
      \<lparr>huc = Some 2, dist = Some 20,
        chem = (\<lambda>c. if c = ''Fe'' then Some 5 else if c = ''ResultMeasureValue'' then Some 2 else None)\<rparr>])
     = [None, None] \<and>
   Sickness_Index [''Fe'', ''ResultMeasureValue'']
     [\<lparr>huc = Some (1::nat), dist = Some 10,
        chem = (\<lambda>c. if c = ''Fe'' then Some 5 else if c = ''ResultMeasureValue'' then Some 1 else None)\<rparr>,
      \<lparr>huc = Some 2, dist = Some 20,
        chem = (\<lambda>c. if c = ''Fe'' then Some 5 else if c = ''ResultMeasureValue'' then Some 2 else None)\<rparr>]
     = [Some (2 / 5), Some (3 / 5)]"
  by code_simp

text \<open>
  Claim C8, amended. \<open>safe_norm\<close> preserves the order of its non-null entries. On a column
  with two distinct non-null values every non-null entry goes into \<open>[0, 1]\<close>, the minimum to 0
  and the maximum to 1. An all-null column stays all null, and a column whose non-null values
  are all equal becomes all null. The \<open>Sickness_Index\<close> of every record is then null when that
  column is the distance column, or when every chemistry column is such a column; a single
  constant chemistry column is skipped by the row mean.
\<close>

theorem safe_norm_properties:
  "(\<forall>i j x y a b. i < length s \<and> j < length s \<and> s ! i = Some x \<and> s ! j = Some y \<and> x \<le> y \<and>
        safe_norm s ! i = Some a \<and> safe_norm s ! j = Some b \<longrightarrow> a \<le> b) \<and>
   ((\<exists>a b. Some a \<in> set s \<and> Some b \<in> set s \<and> a \<noteq> b) \<longrightarrow>
      (\<forall>i v. i < length s \<and> s ! i = Some v \<longrightarrow>
         (\<exists>y. safe_norm s ! i = Some y \<and> 0 \<le> y \<and> y \<le> 1 \<and>
              (v = Min (set (dropna s)) \<longrightarrow> y = 0) \<and> (v = Max (set (dropna s)) \<longrightarrow> y = 1)))) \<and>
   ((\<forall>x \<in> set s. x = None) \<longrightarrow> safe_norm s = replicate (length s) None) \<and>
   ((\<forall>a b. Some a \<in> set s \<and> Some b \<in> set s \<longrightarrow> a = b) \<longrightarrow>
      safe_norm s = replicate (length s) None) \<and>
   ((\<forall>a b. Some a \<in> set (map dist data) \<and> Some b \<in> set (map dist data) \<longrightarrow> a = b) \<longrightarrow>
      Sickness_Index cs data = replicate (length data) None) \<and>
   ((\<forall>c \<in> set cs. \<forall>a b. Some a \<in> set (map (\<lambda>r. chem r c) data) \<and>
        Some b \<in> set (map (\<lambda>r. chem r c) data) \<longrightarrow> a = b) \<longrightarrow>
      Sickness_Index cs data = replicate (length data) None)"
proof (intro conjI)
  show "\<forall>i j x y a b. i < length s \<and> j < length s \<and> s ! i = Some x \<and> s ! j = Some y \<and> x \<le> y \<and>
        safe_norm s ! i = Some a \<and> safe_norm s ! j = Some b \<longrightarrow> a \<le> b"
    using safe_norm_mono by blast
next
  show "(\<exists>a b. Some a \<in> set s \<and> Some b \<in> set s \<and> a \<noteq> b) \<longrightarrow>
      (\<forall>i v. i < length s \<and> s ! i = Some v \<longrightarrow>
         (\<exists>y. safe_norm s ! i = Some y \<and> 0 \<le> y \<and> y \<le> 1 \<and>
              (v = Min (set (dropna s)) \<longrightarrow> y = 0) \<and> (v = Max (set (dropna s)) \<longrightarrow> y = 1)))"
  proof (intro impI allI)
    fix i v
    assume two: "\<exists>a b. Some a \<in> set s \<and> Some b \<in> set s \<and> a \<noteq> b"
      and iv: "i < length s \<and> s ! i = Some v"
    let ?lo = "Min (set (dropna s))" and ?hi = "Max (set (dropna s))"
    from two obtain a b where "a \<in> set (dropna s)" "b \<in> set (dropna s)" "a \<noteq> b"
      unfolding set_dropna by blast
    then have lt: "?lo < ?hi" by (rule two_distinct_spread)
    from iv lt have y: "safe_norm s ! i = Some ((v - ?lo) / (?hi - ?lo))"
      by (simp add: safe_norm_nondegenerate)
    from iv y have "0 \<le> (v - ?lo) / (?hi - ?lo) \<and> (v - ?lo) / (?hi - ?lo) \<le> 1"
      by (intro safe_norm_unit) auto
    moreover have "v = ?lo \<longrightarrow> (v - ?lo) / (?hi - ?lo) = 0" by simp
    moreover have "v = ?hi \<longrightarrow> (v - ?lo) / (?hi - ?lo) = 1" using lt by simp
    ultimately show "\<exists>y. safe_norm s ! i = Some y \<and> 0 \<le> y \<and> y \<le> 1 \<and>
              (v = ?lo \<longrightarrow> y = 0) \<and> (v = ?hi \<longrightarrow> y = 1)"
      using y by blast
  qed
next
  show "(\<forall>x \<in> set s. x = None) \<longrightarrow> safe_norm s = replicate (length s) None"
    using safe_norm_all_null by blast
next
  show "(\<forall>a b. Some a \<in> set s \<and> Some b \<in> set s \<longrightarrow> a = b) \<longrightarrow>
      safe_norm s = replicate (length s) None"
    using safe_norm_constant by blast
next
  show "(\<forall>a b. Some a \<in> set (map dist data) \<and> Some b \<in> set (map dist data) \<longrightarrow> a = b) \<longrightarrow>
      Sickness_Index cs data = replicate (length data) None"
    using Sickness_Index_dist_constant by blast
next
  show "(\<forall>c \<in> set cs. \<forall>a b. Some a \<in> set (map (\<lambda>r. chem r c) data) \<and>
        Some b \<in> set (map (\<lambda>r. chem r c) data) \<longrightarrow> a = b) \<longrightarrow>
      Sickness_Index cs data = replicate (length data) None"
    using Sickness_Index_chem_constant by blast
qed

theorem safe_norm_properties_witness:
  "safe_norm [Some 2, None, Some 6] ! 2 = Some 1 \<and>
   safe_norm [None, None] = [None, None] \<and>
   safe_norm [Some 5, None, Some 5] = [None, None, None] \<and>
   Sickness_Index [''Fe'']
     [\<lparr>huc = Some (1::nat), dist = Some 7, chem = (\<lambda>c. if c = ''Fe'' then Some 1 else None)\<rparr>,
      \<lparr>huc = Some 2, dist = Some 7, chem = (\<lambda>c. if c = ''Fe'' then Some 3 else None)\<rparr>]
     = [None, None]"
proof -
  let ?s = "[Some 2, None, Some (6::real)]"
  let ?data = "[\<lparr>huc = Some (1::nat), dist = Some 7, chem = (\<lambda>c. if c = ''Fe'' then Some 1 else None)\<rparr>,
      \<lparr>huc = Some 2, dist = Some 7, chem = (\<lambda>c. if c = ''Fe'' then Some 3 else None)\<rparr>]"
  have two: "\<exists>a b. Some a \<in> set ?s \<and> Some b \<in> set ?s \<and> a \<noteq> b"
    by (rule exI [of _ 2], rule exI [of _ 6]) simp
  have mx: "Max (set (dropna ?s)) = 6" by (simp add: dropna_def)
  from safe_norm_properties [of ?s "[] :: nat hrow list" "[]"] two
  have "\<forall>i v. i < length ?s \<and> ?s ! i = Some v \<longrightarrow>
         (\<exists>y. safe_norm ?s ! i = Some y \<and> 0 \<le> y \<and> y \<le> 1 \<and>
              (v = Min (set (dropna ?s)) \<longrightarrow> y = 0) \<and> (v = Max (set (dropna ?s)) \<longrightarrow> y = 1))"
    by blast
  then have "2 < length ?s \<and> ?s ! 2 = Some 6 \<longrightarrow>
         (\<exists>y. safe_norm ?s ! 2 = Some y \<and> 0 \<le> y \<and> y \<le> 1 \<and>
              (6 = Min (set (dropna ?s)) \<longrightarrow> y = 0) \<and> (6 = Max (set (dropna ?s)) \<longrightarrow> y = 1))"
    by blast
  then have a: "safe_norm ?s ! 2 = Some 1" using mx by auto
  have "\<forall>x \<in> set [None, None :: fcell]. x = None" by simp
  with safe_norm_properties [of "[None, None]" "[] :: nat hrow list" "[]"]
  have "safe_norm [None, None] = replicate (length [None, None :: fcell]) None" by blast
  then have b: "safe_norm [None, None] = [None, None]" by simp
  have "\<forall>a b. Some a \<in> set [Some 5, None, Some (5::real)] \<and> Some b \<in> set [Some 5, None, Some (5::real)]
          \<longrightarrow> a = b" by simp
  with safe_norm_properties [of "[Some 5, None, Some 5]" "[] :: nat hrow list" "[]"]
  have "safe_norm [Some 5, None, Some 5] = replicate (length [Some 5, None, Some (5::real)]) None"
    by blast
  then have c: "safe_norm [Some 5, None, Some 5] = [None, None, None]"
    by (simp add: numeral_3_eq_3)
  have "\<forall>a b. Some a \<in> set (map dist ?data) \<and> Some b \<in> set (map dist ?data) \<longrightarrow> a = b" by simp
  with safe_norm_properties [of "[]" ?data "[''Fe'']"]
  have "Sickness_Index [''Fe''] ?data = replicate (length ?data) None" by blast
  then have d: "Sickness_Index [''Fe''] ?data = [None, None]" by (simp add: numeral_2_eq_2)
  from a b c d show ?thesis by blast
qed

section \<open>Properties of the HUC12 ranking\<close>

lemma dense_rank_strict:
  fixes x y :: real
  assumes "y \<in> set vals" and "y < x"
  shows "length (remdups (filter (\<lambda>w. x \<le> w) vals)) < length (remdups (filter (\<lambda>w. y \<le> w) vals))"
proof -
  have "{w \<in> set vals. x \<le> w} \<subseteq> {w \<in> set vals. y \<le> w}"
    using assms(2) by auto
  moreover have "y \<in> {w \<in> set vals. y \<le> w}" "y \<notin> {w \<in> set vals. x \<le> w}"
    using assms by auto
  ultimately have "{w \<in> set vals. x \<le> w} \<subset> {w \<in> set vals. y \<le> w}"
    by blast
  then have "card {w \<in> set vals. x \<le> w} < card {w \<in> set vals. y \<le> w}"
    by (intro psubset_card_mono) auto
  then show ?thesis by (simp add: length_remdups_card_conv)
qed

lemma dense_rank_top:
  fixes x :: real
  assumes "x \<in> set vals" and "\<forall>w \<in> set vals. w \<le> x"
  shows "length (remdups (filter (\<lambda>w. x \<le> w) vals)) = 1"
proof -
  have "{w \<in> set vals. x \<le> w} = {x}" using assms by force
  then show ?thesis by (simp add: length_remdups_card_conv)
qed

lemma zip_map_self: "zip xs (map f xs) = map (\<lambda>x. (x, f x)) xs"
  by (induction xs) auto

lemma astype_int_Inr:
  "astype_int xs = Inr ranks \<longleftrightarrow> None \<notin> set xs \<and> ranks = map the xs"
  by (auto simp: astype_int_def)

lemma rank_dense_desc_None: "None \<in> set (rank_dense_desc xs) \<longleftrightarrow> None \<in> set xs"
  by (auto simp: rank_dense_desc_def)

lemma ranked_Inr:
  assumes "ranked summary = Inr out"
  shows "(\<forall>r \<in> set summary. s_index r \<noteq> None) \<and>
         out = sort_key snd (map (\<lambda>r. (r, length (remdups (filter (\<lambda>w. the (s_index r) \<le> w)
                                                   (dropna (map s_index summary)))))) summary)"
proof -
  from assms obtain ranks where r: "astype_int (rank_dense_desc (map s_index summary)) = Inr ranks"
    and out: "out = sort_key snd (zip summary ranks)"
    by (auto simp: ranked_def split: sum.splits)
  from r have nn: "None \<notin> set (map s_index summary)"
    and ranks: "ranks = map the (rank_dense_desc (map s_index summary))"
    by (simp_all add: astype_int_Inr rank_dense_desc_None)
  from nn have all: "\<forall>r \<in> set summary. s_index r \<noteq> None" by force
  have "ranks = map (\<lambda>r. length (remdups (filter (\<lambda>w. the (s_index r) \<le> w)
                                                   (dropna (map s_index summary))))) summary"
    unfolding ranks rank_dense_desc_def using all by (auto simp: comp_def)
  then show ?thesis using all out by (simp add: zip_map_self)
qed

lemma ranked_total:
  assumes "\<forall>r \<in> set summary. s_index r \<noteq> None"
  shows "\<exists>out. ranked summary = Inr out"
proof -
  have "None \<notin> set (rank_dense_desc (map s_index summary))"
    using assms by (force simp: rank_dense_desc_None)
  then show ?thesis by (simp add: ranked_def astype_int_def)
qed

text \<open>The script's summary, when it is produced, is the ranking of the aggregated rows.\<close>

lemma health_summary_ranked:
  assumes "health_summary df = Inr out"
  shows "\<exists>data summary. prepare df = Inr data \<and> aggregate (chem_cols df) data = Inr summary \<and>
           ranked summary = Inr out"
  using assms by (auto simp: health_summary_def split: sum.splits)

lemma dense_rank_card:
  "length (remdups (filter (\<lambda>w. x \<le> w) (dropna (map s_index summary))))
     = card {y. (\<exists>b \<in> set summary. s_index b = Some y) \<and> x \<le> y}"
proof -
  have "set (filter (\<lambda>w. x \<le> w) (dropna (map s_index summary)))
          = {y. (\<exists>b \<in> set summary. s_index b = Some y) \<and> x \<le> y}"
    unfolding set_filter set_dropna_map by blast
  then show ?thesis by (simp add: length_remdups_card_conv del: set_filter)
qed

lemma dense_rank_range:
  fixes V :: "real set"
  assumes "finite V"
  shows "(\<lambda>x. card {y \<in> V. x \<le> y}) ` V = {1..card V}"
proof -
  let ?rk = "\<lambda>x. card {y \<in> V. x \<le> y}"
  have strict: "?rk y < ?rk x" if "x \<in> V" "y \<in> V" "x < y" for x y
  proof -
    have "{z \<in> V. y \<le> z} \<subseteq> {z \<in> V. x \<le> z}" using that(3) by auto
    moreover have "x \<in> {z \<in> V. x \<le> z}" "x \<notin> {z \<in> V. y \<le> z}" using that by auto
    ultimately have "{z \<in> V. y \<le> z} \<subset> {z \<in> V. x \<le> z}" by blast
    then show ?thesis using assms by (intro psubset_card_mono) auto
  qed
  have inj: "inj_on ?rk V"
  proof (rule inj_onI)
    fix x y assume x: "x \<in> V" and y: "y \<in> V" and e: "?rk x = ?rk y"
    show "x = y"
    proof (rule ccontr)
      assume "x \<noteq> y"
      then consider "x < y" | "y < x" by linarith
      then show False
      proof cases
        case 1 from strict [OF x y 1] e show False by simp
      next
        case 2 from strict [OF y x 2] e show False by simp
      qed
    qed
  qed
  have sub: "?rk ` V \<subseteq> {1..card V}"
  proof
    fix n assume "n \<in> ?rk ` V"
    then obtain x where x: "x \<in> V" and n: "n = ?rk x" by blast
    have "{y \<in> V. x \<le> y} \<noteq> {}" using x by auto
    then have "0 < ?rk x" using assms by (simp add: card_gt_0_iff)
    moreover have "?rk x \<le> card V" using assms by (intro card_mono) auto
    ultimately show "n \<in> {1..card V}" using n by simp
  qed
  have "card (?rk ` V) = card {1..card V}" using inj by (simp add: card_image)
  with sub show ?thesis by (intro card_subset_eq) auto
qed

text \<open>
  Claim C7. The summary gets its ranks whenever every HUC12 has a mean index (a null mean
  makes \<open>astype(int)\<close> raise). The ranked summary holds the summary rows and is sorted by
  \<open>Rank\<close>. The rank of a HUC12 is the number of distinct mean indexes that are at least as
  large as its own: HUC12s with equal means share a rank, a strictly greater mean has a
  strictly smaller rank, a maximal mean has rank 1, and the ranks are the numbers from 1
  to the number of distinct means, without a gap.
\<close>

theorem dense_rank_summary:
  "((\<forall>r \<in> set summary. s_index r \<noteq> None) \<longrightarrow> (\<exists>out. ranked summary = Inr out)) \<and>
   (\<forall>out. ranked summary = Inr out \<longrightarrow>
      mset (map fst out) = mset summary \<and>
      sorted (map snd out) \<and>
      (\<forall>a ra x. (a, ra) \<in> set out \<and> s_index a = Some x \<longrightarrow>
          ra = card {y. (\<exists>b \<in> set summary. s_index b = Some y) \<and> x \<le> y}) \<and>
      (\<forall>a ra b rb x. (a, ra) \<in> set out \<and> (b, rb) \<in> set out \<and>
          s_index a = Some x \<and> s_index b = Some x \<longrightarrow> ra = rb) \<and>
      (\<forall>a ra b rb x y. (a, ra) \<in> set out \<and> (b, rb) \<in> set out \<and>
          s_index a = Some x \<and> s_index b = Some y \<and> y < x \<longrightarrow> ra < rb) \<and>
      (\<forall>a ra x. (a, ra) \<in> set out \<and> s_index a = Some x \<and>
          (\<forall>b \<in> set summary. \<forall>y. s_index b = Some y \<longrightarrow> y \<le> x) \<longrightarrow> ra = 1) \<and>
      snd ` set out = {1..card {y. \<exists>b \<in> set summary. s_index b = Some y}})"
proof (intro conjI allI impI)
  assume "\<forall>r \<in> set summary. s_index r \<noteq> None"
  then show "\<exists>out. ranked summary = Inr out" by (rule ranked_total)
next
  fix out assume "ranked summary = Inr out"
  from ranked_Inr [OF this]
  have "mset out = mset (map (\<lambda>r. (r, length (remdups (filter (\<lambda>w. the (s_index r) \<le> w)
                                                   (dropna (map s_index summary)))))) summary)"
    by simp
  then have "image_mset fst (mset out) = mset summary"
    by (simp add: image_mset.compositionality comp_def)
  then show "mset (map fst out) = mset summary" by simp
next
  fix out assume "ranked summary = Inr out"
  from ranked_Inr [OF this] show "sorted (map snd out)" by simp
next
  fix out a ra x
  assume o: "ranked summary = Inr out" and h: "(a, ra) \<in> set out \<and> s_index a = Some x"
  from ranked_Inr [OF o] h
  have "ra = length (remdups (filter (\<lambda>w. x \<le> w) (dropna (map s_index summary))))" by auto
  then show "ra = card {y. (\<exists>b \<in> set summary. s_index b = Some y) \<and> x \<le> y}"
    by (simp only: dense_rank_card)
next
  fix out a ra b rb x
  assume o: "ranked summary = Inr out"
    and h: "(a, ra) \<in> set out \<and> (b, rb) \<in> set out \<and> s_index a = Some x \<and> s_index b = Some x"
  from ranked_Inr [OF o] h
  have "ra = length (remdups (filter (\<lambda>w. x \<le> w) (dropna (map s_index summary))))"
    and "rb = length (remdups (filter (\<lambda>w. x \<le> w) (dropna (map s_index summary))))" by auto
  then show "ra = rb" by simp
next
  fix out a ra b rb x y
  assume o: "ranked summary = Inr out"
    and h: "(a, ra) \<in> set out \<and> (b, rb) \<in> set out \<and> s_index a = Some x \<and> s_index b = Some y \<and> y < x"
  let ?vals = "dropna (map s_index summary)"
  from ranked_Inr [OF o] h
  have ra: "ra = length (remdups (filter (\<lambda>w. x \<le> w) ?vals))"
    and rb: "rb = length (remdups (filter (\<lambda>w. y \<le> w) ?vals))"
    and b: "b \<in> set summary"
    by auto
  from b h have "y \<in> set ?vals" by (force simp: set_dropna)
  with h show "ra < rb" unfolding ra rb by (intro dense_rank_strict) auto
next
  fix out a ra x
  assume o: "ranked summary = Inr out"
    and h: "(a, ra) \<in> set out \<and> s_index a = Some x \<and>
            (\<forall>b \<in> set summary. \<forall>y. s_index b = Some y \<longrightarrow> y \<le> x)"
  let ?vals = "dropna (map s_index summary)"
  from ranked_Inr [OF o] h
  have ra: "ra = length (remdups (filter (\<lambda>w. x \<le> w) ?vals))" and a: "a \<in> set summary"
    by auto
  from a h have "x \<in> set ?vals" by (force simp: set_dropna)
  moreover from h have "\<forall>w \<in> set ?vals. w \<le> x" by (auto simp: set_dropna)
  ultimately show "ra = 1" unfolding ra by (rule dense_rank_top)
next
  fix out assume o: "ranked summary = Inr out"
  let ?V = "{y. \<exists>b \<in> set summary. s_index b = Some y}"
  let ?rk = "\<lambda>x. card {y \<in> ?V. x \<le> y}"
  from ranked_Inr [OF o] have nn: "\<forall>r \<in> set summary. s_index r \<noteq> None"
    and out: "set out = (\<lambda>r. (r, length (remdups (filter (\<lambda>w. the (s_index r) \<le> w)
                                              (dropna (map s_index summary)))))) ` set summary"
    by simp_all
  have rk: "length (remdups (filter (\<lambda>w. x \<le> w) (dropna (map s_index summary)))) = ?rk x" for x
    unfolding dense_rank_card by (rule arg_cong [where f = card]) blast
  have V: "?V = (\<lambda>r. the (s_index r)) ` set summary"
  proof
    show "?V \<subseteq> (\<lambda>r. the (s_index r)) ` set summary" by force
    show "(\<lambda>r. the (s_index r)) ` set summary \<subseteq> ?V" using nn by force
  qed
  have "snd ` set out = (\<lambda>r. ?rk (the (s_index r))) ` set summary"
    unfolding out rk by (simp add: image_image)
  also have "\<dots> = ?rk ` ?V" unfolding V by (simp add: image_image)
  also have "\<dots> = {1..card ?V}"
  proof (rule dense_rank_range)
    have "?V \<subseteq> (\<lambda>r. the (s_index r)) ` set summary" by force
    then show "finite ?V" by (rule finite_subset) simp
  qed
  finally show "snd ` set out = {1..card ?V}" .
qed

theorem dense_rank_summary_witness:
  "ranked [\<lparr>s_huc = (1::nat), Mean_Fe = None, Mean_Analyte = None, Mean_Temp = None,
             Mean_Dist_M = None, s_index = Some 0\<rparr>,
           \<lparr>s_huc = 2, Mean_Fe = None, Mean_Analyte = None, Mean_Temp = None,
             Mean_Dist_M = None, s_index = Some 1\<rparr>,
           \<lparr>s_huc = 3, Mean_Fe = None, Mean_Analyte = None, Mean_Temp = None,
             Mean_Dist_M = None, s_index = Some 1\<rparr>,
           \<lparr>s_huc = 4, Mean_Fe = None, Mean_Analyte = None, Mean_Temp = None,
             Mean_Dist_M = None, s_index = Some 2\<rparr>]
     = Inr [(\<lparr>s_huc = 4, Mean_Fe = None, Mean_Analyte = None, Mean_Temp = None,
               Mean_Dist_M = None, s_index = Some 2\<rparr>, 1),
            (\<lparr>s_huc = 2, Mean_Fe = None, Mean_Analyte = None, Mean_Temp = None,
               Mean_Dist_M = None, s_index = Some 1\<rparr>, 2),
            (\<lparr>s_huc = 3, Mean_Fe = None, Mean_Analyte = None, Mean_Temp = None,
               Mean_Dist_M = None, s_index = Some 1\<rparr>, 2),
            (\<lparr>s_huc = 1, Mean_Fe = None, Mean_Analyte = None, Mean_Temp = None,
               Mean_Dist_M = None, s_index = Some 0\<rparr>, 3)] \<and>
   sorted (map snd
          [(\<lparr>s_huc = (4::nat), Mean_Fe = None, Mean_Analyte = None, Mean_Temp = None,
               Mean_Dist_M = None, s_index = Some 2\<rparr>, 1::nat),
            (\<lparr>s_huc = 2, Mean_Fe = None, Mean_Analyte = None, Mean_Temp = None,
               Mean_Dist_M = None, s_index = Some 1\<rparr>, 2),
            (\<lparr>s_huc = 3, Mean_Fe = None, Mean_Analyte = None, Mean_Temp = None,
               Mean_Dist_M = None, s_index = Some 1\<rparr>, 2),
            (\<lparr>s_huc = 1, Mean_Fe = None, Mean_Analyte = None, Mean_Temp = None,
               Mean_Dist_M = None, s_index = Some 0\<rparr>, 3)])"
proof -
  let ?S = "[\<lparr>s_huc = (1::nat), Mean_Fe = None, Mean_Analyte = None, Mean_Temp = None,
             Mean_Dist_M = None, s_index = Some 0\<rparr>,
           \<lparr>s_huc = 2, Mean_Fe = None, Mean_Analyte = None, Mean_Temp = None,
             Mean_Dist_M = None, s_index = Some 1\<rparr>,
           \<lparr>s_huc = 3, Mean_Fe = None, Mean_Analyte = None, Mean_Temp = None,
             Mean_Dist_M = None, s_index = Some 1\<rparr>,
           \<lparr>s_huc = 4, Mean_Fe = None, Mean_Analyte = None, Mean_Temp = None,
             Mean_Dist_M = None, s_index = Some 2\<rparr>]"
  let ?O = "[(\<lparr>s_huc = (4::nat), Mean_Fe = None, Mean_Analyte = None, Mean_Temp = None,
               Mean_Dist_M = None, s_index = Some 2\<rparr>, 1::nat),
            (\<lparr>s_huc = 2, Mean_Fe = None, Mean_Analyte = None, Mean_Temp = None,
               Mean_Dist_M = None, s_index = Some 1\<rparr>, 2),
            (\<lparr>s_huc = 3, Mean_Fe = None, Mean_Analyte = None, Mean_Temp = None,
               Mean_Dist_M = None, s_index = Some 1\<rparr>, 2),
            (\<lparr>s_huc = 1, Mean_Fe = None, Mean_Analyte = None, Mean_Temp = None,
               Mean_Dist_M = None, s_index = Some 0\<rparr>, 3)]"
  have nn: "\<forall>r \<in> set ?S. s_index r \<noteq> None" by simp
  have e: "ranked ?S = Inr ?O" by code_simp
  from dense_rank_summary [of ?S] e have s: "sorted (map snd ?O)" by blast
  from dense_rank_summary [of ?S] nn have "\<exists>out. ranked ?S = Inr out" by blast
  with e s show ?thesis by blast
qed

section \<open>Properties of the AMD subset\<close>

lemma clean_step_clean:
  "map w_frame (out_clean (clean_step parse raw st))
     = map w_frame (out_clean st) @ [clean_chunk parse raw]"
  by (simp add: clean_step_def Let_def to_csv_def)

lemma clean_step_subset:
  "map w_frame (out_subset (clean_step parse raw st))
     = map w_frame (out_subset st) @ subset_frames parse [raw]"
  by (simp add: clean_step_def Let_def to_csv_def subset_frames_def)

lemma subset_frames_Cons:
  "subset_frames parse (raw # chunks) = subset_frames parse [raw] @ subset_frames parse chunks"
  by (simp add: subset_frames_def)

lemma fold_clean_step:
  "map w_frame (out_clean (fold (clean_step parse) chunks st))
     = map w_frame (out_clean st) @ map (clean_chunk parse) chunks \<and>
   map w_frame (out_subset (fold (clean_step parse) chunks st))
     = map w_frame (out_subset st) @ subset_frames parse chunks"
proof (induction chunks arbitrary: st)
  case Nil
  then show ?case by (simp add: subset_frames_def)
next
  case (Cons raw chunks)
  show ?case
    using Cons [of "clean_step parse raw st"] subset_frames_Cons [of parse raw chunks]
    by (simp add: clean_step_clean clean_step_subset)
qed

lemma is_amd_row_iff:
  "is_amd_row fr r \<longleftrightarrow> (\<exists>p \<in> set amd_params. cell_at fr r ''CharacteristicName'' = Some (Str p))"
  by (auto simp: is_amd_row_def split: option.splits cell.splits)

lemma cell_at_amd_subset [simp]: "cell_at (amd_subset fr) r name = cell_at fr r name"
  by (simp add: cell_at_def amd_subset_def)

lemma amd_subset_rows:
  assumes "r \<in> set (records (amd_subset fr))"
  shows "\<exists>p \<in> set amd_params. cell_at (amd_subset fr) r ''CharacteristicName'' = Some (Str p)"
proof -
  from assms have "is_amd_row fr r" by (simp add: amd_subset_def)
  then show ?thesis by (simp add: is_amd_row_iff)
qed

text \<open>
  Frame by frame the subset is right: the frames written to the cleaned file are the
  cleaned chunks, and the frames written to the subset file are the AMD subsets of the
  cleaned chunks that have a \<open>CharacteristicName\<close> column and a non-empty subset, in order. A
  row of a subset, read under the labels of its own chunk, has one of the seven AMD
  parameters as its \<open>CharacteristicName\<close>.
\<close>

lemma amd_subset_frames:
  "map w_frame (out_clean (clean_wqx_file parse chunks)) = map (clean_chunk parse) chunks \<and>
   map w_frame (out_subset (clean_wqx_file parse chunks))
     = map amd_subset
         (filter (\<lambda>c. ''CharacteristicName'' \<in> set (labels c) \<and> records (amd_subset c) \<noteq> [])
            (map (clean_chunk parse) chunks)) \<and>
   (\<forall>c \<in> set (map (clean_chunk parse) chunks).
      records (amd_subset c)
        = filter (\<lambda>r. \<exists>p \<in> set amd_params. cell_at c r ''CharacteristicName'' = Some (Str p))
            (records c)) \<and>
   (\<forall>w \<in> set (out_subset (clean_wqx_file parse chunks)).
      ''CharacteristicName'' \<in> set (labels (w_frame w)) \<and>
      (\<forall>r \<in> set (records (w_frame w)).
         \<exists>p \<in> set amd_params. cell_at (w_frame w) r ''CharacteristicName'' = Some (Str p)))"
proof (intro conjI ballI)
  let ?init = "\<lparr>first_clean = True, first_subset = True, out_clean = [], out_subset = []\<rparr>"
  show "map w_frame (out_clean (clean_wqx_file parse chunks)) = map (clean_chunk parse) chunks"
    using fold_clean_step [of parse chunks ?init] by (simp add: clean_wqx_file_def)
  show sub: "map w_frame (out_subset (clean_wqx_file parse chunks))
           = map amd_subset
               (filter (\<lambda>c. ''CharacteristicName'' \<in> set (labels c) \<and> records (amd_subset c) \<noteq> [])
                  (map (clean_chunk parse) chunks))"
    using fold_clean_step [of parse chunks ?init]
    by (simp add: clean_wqx_file_def subset_frames_def)
  {
    fix w assume "w \<in> set (out_subset (clean_wqx_file parse chunks))"
    then have "w_frame w \<in> set (map w_frame (out_subset (clean_wqx_file parse chunks)))" by simp
    then obtain c where c: "''CharacteristicName'' \<in> set (labels c)" and w: "w_frame w = amd_subset c"
      unfolding sub by auto
    from c w show "''CharacteristicName'' \<in> set (labels (w_frame w))"
      by (simp add: amd_subset_def)
    fix r assume "r \<in> set (records (w_frame w))"
    with w show "\<exists>p \<in> set amd_params. cell_at (w_frame w) r ''CharacteristicName'' = Some (Str p)"
      using amd_subset_rows [of r c] by simp
  }
  fix c assume "c \<in> set (map (clean_chunk parse) chunks)"
  show "records (amd_subset c)
              = filter (\<lambda>r. \<exists>p \<in> set amd_params. cell_at c r ''CharacteristicName'' = Some (Str p))
                  (records c)"
    by (simp add: amd_subset_def is_amd_row_iff [abs_def])
qed

text \<open>
  Claim C9 on the subset file itself. The header line is written by the first call only,
  while the columns without a value are dropped chunk by chunk. Take an input whose second
  chunk has no value in \<open>Org\<close>: its rows are appended without \<open>Org\<close> under the header of the
  first chunk, and the row \<open>Iron, ug\<close>, read back from the file, has \<open>Iron\<close> as its \<open>Org\<close> and
  \<open>ug\<close>, which is none of the seven AMD parameters, as its \<open>CharacteristicName\<close>.
\<close>

theorem amd_subset_file_misaligned:
  "file_after (out_subset (clean_wqx_file sample_parse [org_chunk, no_org_chunk]))
     = [[Str ''Org'', Str ''CharacteristicName'', Str ''Unit''],
        [Str ''A'', Str ''pH'', Str ''mg''],
        [Str ''Iron'', Str ''ug'']] \<and>
   cell_at (read_csv (file_after (out_subset (clean_wqx_file sample_parse [org_chunk, no_org_chunk]))))
       [Str ''Iron'', Str ''ug''] ''CharacteristicName''
     = Some (Str ''ug'') \<and>
   ''ug'' \<notin> set amd_params"
proof (intro conjI)
  show "file_after (out_subset (clean_wqx_file sample_parse [org_chunk, no_org_chunk]))
     = [[Str ''Org'', Str ''CharacteristicName'', Str ''Unit''],
        [Str ''A'', Str ''pH'', Str ''mg''],
        [Str ''Iron'', Str ''ug'']]"
    by code_simp
  show "cell_at (read_csv (file_after (out_subset (clean_wqx_file sample_parse [org_chunk, no_org_chunk]))))
       [Str ''Iron'', Str ''ug''] ''CharacteristicName''
     = Some (Str ''ug'')"
    by code_simp
  show "''ug'' \<notin> set amd_params" by (simp add: amd_params_def)
qed
section \<open>Properties of the AMD impact label\<close>

lemma df_get_cases:
  "df_get df name = Column (map (\<lambda>r. r name) df) \<or>
   (df_get df name = Scalar None \<and> (\<forall>r \<in> set df. r name = None))"
  by (auto simp: df_get_def list_ex_iff)

lemma AMD_impacted_length: "length (AMD_impacted df) = length df"
  using df_get_cases [of df "''pH_mean''"] df_get_cases [of df "''Iron_mean''"]
  by (auto simp: AMD_impacted_def)

lemma df_get_nth:
  assumes "i < length df"
  shows "(case df_get df name of Column xs \<Rightarrow> xs ! i | Scalar x \<Rightarrow> x) = (df ! i) name"
proof (cases "list_ex (\<lambda>r. r name \<noteq> None) df")
  case True
  then show ?thesis using assms by (simp add: df_get_def)
next
  case False
  then have "\<forall>r \<in> set df. r name = None" by (simp add: list_ex_iff)
  then have "(df ! i) name = None" using assms by simp
  then show ?thesis using False by (simp add: df_get_def)
qed

lemma AMD_impacted_nth:
  assumes "i < length df"
  shows "AMD_impacted df ! i =
           (if lt_num ((df ! i) ''pH_mean'') 5 \<or> gt_num ((df ! i) ''Iron_mean'') 10 then 1 else 0)"
proof -
  have p: "(case df_get df ''pH_mean'' of Column xs \<Rightarrow> xs ! i | Scalar x \<Rightarrow> x) = (df ! i) ''pH_mean''"
    using assms by (rule df_get_nth)
  have f: "(case df_get df ''Iron_mean'' of Column xs \<Rightarrow> xs ! i | Scalar x \<Rightarrow> x) = (df ! i) ''Iron_mean''"
    using assms by (rule df_get_nth)
  show ?thesis
    using df_get_cases [of df "''pH_mean''"] df_get_cases [of df "''Iron_mean''"] assms p f
    by (auto simp: AMD_impacted_def)
qed

text \<open>
  Claim C10. Every site row of the feature matrix gets a label in \<open>{0, 1}\<close>; the label is 1
  exactly when the site's \<open>pH_mean\<close> is a number below 5 or its \<open>Iron_mean\<close> is a number above
  10. A missing value satisfies neither comparison, so a site with both missing is labelled 0.
\<close>

theorem AMD_impacted_label:
  assumes "i < length df"
  shows "length (AMD_impacted df) = length df \<and>
         AMD_impacted df ! i \<in> {0, 1} \<and>
         (AMD_impacted df ! i = 1 \<longleftrightarrow>
           (\<exists>p. (df ! i) ''pH_mean'' = Some p \<and> p < 5) \<or>
           (\<exists>f. (df ! i) ''Iron_mean'' = Some f \<and> f > 10)) \<and>
         ((df ! i) ''pH_mean'' = None \<and> (df ! i) ''Iron_mean'' = None \<longrightarrow>
           AMD_impacted df ! i = 0)"
  using assms
  by (auto simp: AMD_impacted_length AMD_impacted_nth lt_num_def gt_num_def split: option.splits)

theorem AMD_impacted_label_witness:
  "(1::nat) < length [[''pH_mean'' \<mapsto> 4, ''Iron_mean'' \<mapsto> 3], [''Sulfate_mean'' \<mapsto> (250::real)]] \<and>
   AMD_impacted [[''pH_mean'' \<mapsto> 4, ''Iron_mean'' \<mapsto> 3], [''Sulfate_mean'' \<mapsto> 250]] ! 1 = 0"
  using AMD_impacted_label
          [of 1 "[[''pH_mean'' \<mapsto> 4, ''Iron_mean'' \<mapsto> 3], [''Sulfate_mean'' \<mapsto> 250]]"]
  by simp

end
